theory Spec2Isabelle
  imports Main "HOL-Library.Multiset"
begin

section \<open>Sequences addressed by position\<close>

text \<open>
  Qt's tab bar and stacked widget, and Python's window list, are ordered sequences that
  are edited by position. The two edits are written once here.
\<close>

definition insert_at :: "nat \<Rightarrow> 'a \<Rightarrow> 'a list \<Rightarrow> 'a list" where
  "insert_at k x xs = take k xs @ x # drop k xs"

definition delete_at :: "nat \<Rightarrow> 'a list \<Rightarrow> 'a list" where
  "delete_at k xs = take k xs @ drop (Suc k) xs"

text \<open>Position of the first occurrence (\<open>list.index\<close>, \<open>indexOf\<close>), if any.\<close>

fun find_index :: "'a \<Rightarrow> 'a list \<Rightarrow> nat option" where
  "find_index x [] = None"
| "find_index x (y # ys) = (if y = x then Some 0 else map_option Suc (find_index x ys))"

text \<open>
  Python's \<open>xs[i]\<close>: a negative index counts from the end, and an index outside
  \<open>[-len, len)\<close> raises IndexError, which is \<open>None\<close> here.
\<close>

definition py_getitem :: "'a list \<Rightarrow> int \<Rightarrow> 'a option" where
  "py_getitem xs i =
     (if 0 \<le> i \<and> i < int (length xs) then Some (xs ! nat i)
      else if - int (length xs) \<le> i \<and> i < 0 then Some (xs ! nat (int (length xs) + i))
      else None)"

section \<open>Widgets and tab entries\<close>

type_synonym icon = string

text \<open>
  A page widget is known by its identity. \<open>TabWidget.web_view\<close> tests
  \<open>isinstance(w, WebView)\<close>, so the two kinds of widget are kept apart. A web view
  carries the icon that \<open>WebView.fav_icon()\<close> returns.
\<close>

datatype widget = WebView (view_id: nat) (view_icon: icon) | PlainWidget (widget_id: nat)

fun fav_icon :: "widget \<Rightarrow> icon" where
  "fav_icon (WebView _ ic) = ic"
| "fav_icon (PlainWidget _) = []"

text \<open>
  An entry of the tab bar holds a text and an icon. \<open>tab_owner\<close> is a specification-only
  tag: Qt stores no link from a tab entry to a page widget, the link is positional. The tag
  records the widget that \<open>TabWidget\<close> inserted together with the entry, so that
  "entry \<open>i\<close> belongs to page \<open>i\<close>" can be stated. No operation reads it to decide anything.
\<close>

record tab =
  tab_text :: string
  tab_icon :: icon
  tab_owner :: widget

section \<open>The Qt containers behind a TabWidget\<close>

text \<open>
  \<open>TabWidget\<close> owns a \<open>DragTabBar\<close> (a \<open>QTabBar\<close>) and a \<open>QStackedWidget\<close>.
  Their operations follow Qt's documented behaviour: an index that is out of range appends,
  removing the current entry selects its right neighbour, a changed current tab emits
  \<open>currentChanged\<close>. Each has its own current index.
\<close>

record QStackedWidget =
  widgets :: "widget list"
  st_current :: int

record QTabBar =
  tabs :: "tab list"
  tb_current :: int

record TabWidget =
  tabbar :: QTabBar
  stack :: QStackedWidget

definition empty_TabWidget :: TabWidget where
  "empty_TabWidget =
     \<lparr>tabbar = \<lparr>tabs = [], tb_current = -1\<rparr>, stack = \<lparr>widgets = [], st_current = -1\<rparr>\<rparr>"

abbreviation pages :: "TabWidget \<Rightarrow> widget list" where
  "pages tw \<equiv> widgets (stack tw)"

abbreviation entries :: "TabWidget \<Rightarrow> tab list" where
  "entries tw \<equiv> tabs (tabbar tw)"

subsection \<open>QStackedWidget\<close>

definition stack_count :: "QStackedWidget \<Rightarrow> int" where
  "stack_count s = int (length (widgets s))"

definition stack_widget :: "QStackedWidget \<Rightarrow> int \<Rightarrow> widget option" where
  "stack_widget s i = (if 0 \<le> i \<and> i < stack_count s then Some (widgets s ! nat i) else None)"

definition stack_indexOf :: "QStackedWidget \<Rightarrow> widget \<Rightarrow> int" where
  "stack_indexOf s w = (case find_index w (widgets s) of None \<Rightarrow> -1 | Some k \<Rightarrow> int k)"

definition stack_currentWidget :: "QStackedWidget \<Rightarrow> widget option" where
  "stack_currentWidget s = stack_widget s (st_current s)"

definition stack_setCurrentIndex :: "int \<Rightarrow> QStackedWidget \<Rightarrow> QStackedWidget" where
  "stack_setCurrentIndex i s =
     (case stack_widget s i of
        None \<Rightarrow> s
      | Some nxt \<Rightarrow> if stack_currentWidget s = Some nxt then s else s\<lparr>st_current := i\<rparr>)"

definition stack_insertWidget :: "int \<Rightarrow> widget \<Rightarrow> QStackedWidget \<Rightarrow> QStackedWidget" where
  "stack_insertWidget index w s =
     (let n = stack_count s;
          i0 = min index n;
          i = (if i0 < 0 then n else i0);
          s' = s\<lparr>widgets := insert_at (nat i) w (widgets s)\<rparr>
      in if st_current s < 0 then stack_setCurrentIndex i s'
         else if i \<le> st_current s then s'\<lparr>st_current := st_current s + 1\<rparr>
         else s')"

definition stack_takeAt :: "nat \<Rightarrow> QStackedWidget \<Rightarrow> QStackedWidget" where
  "stack_takeAt k s =
     (let ws = delete_at k (widgets s);
          s' = s\<lparr>widgets := ws\<rparr>
      in if int k = st_current s then
           (if ws \<noteq> [] then
              stack_setCurrentIndex (if k = length ws then int k - 1 else int k)
                (s'\<lparr>st_current := -1\<rparr>)
            else s'\<lparr>st_current := -1\<rparr>)
         else if int k < st_current s then s'\<lparr>st_current := st_current s - 1\<rparr>
         else s')"

text \<open>\<open>removeWidget\<close> finds the widget by identity and takes the first match out.\<close>

definition stack_removeWidget :: "widget \<Rightarrow> QStackedWidget \<Rightarrow> QStackedWidget" where
  "stack_removeWidget w s =
     (case find_index w (widgets s) of None \<Rightarrow> s | Some k \<Rightarrow> stack_takeAt k s)"

subsection \<open>QTabBar, with the signal wiring of \<open>TabWidget.__init__\<close>\<close>

definition tabbar_count :: "QTabBar \<Rightarrow> int" where
  "tabbar_count tb = int (length (tabs tb))"

definition tabbar_validIndex :: "QTabBar \<Rightarrow> int \<Rightarrow> bool" where
  "tabbar_validIndex tb i = (0 \<le> i \<and> i < tabbar_count tb)"

definition tabbar_tab :: "QTabBar \<Rightarrow> int \<Rightarrow> tab option" where
  "tabbar_tab tb i = (if tabbar_validIndex tb i then Some (tabs tb ! nat i) else None)"

text \<open>
  \<open>currentChanged\<close> is connected to \<open>handle_current_changed\<close>, which only refreshes the
  window's title, progress and icon display, and to \<open>_stack.setCurrentIndex\<close>.
\<close>

definition emit_currentChanged :: "int \<Rightarrow> TabWidget \<Rightarrow> TabWidget" where
  "emit_currentChanged i tw = tw\<lparr>stack := stack_setCurrentIndex i (stack tw)\<rparr>"

definition tabbar_setCurrentIndex :: "int \<Rightarrow> TabWidget \<Rightarrow> TabWidget" where
  "tabbar_setCurrentIndex i tw =
     (let tb = tabbar tw
      in if tb_current tb = i \<or> \<not> tabbar_validIndex tb i then tw
         else emit_currentChanged i (tw\<lparr>tabbar := tb\<lparr>tb_current := i\<rparr>\<rparr>))"

definition tabbar_insertTab :: "int \<Rightarrow> tab \<Rightarrow> TabWidget \<Rightarrow> TabWidget \<times> int" where
  "tabbar_insertTab index t tw =
     (let tb = tabbar tw;
          idx = (if tabbar_validIndex tb index then index else tabbar_count tb);
          tw1 = tw\<lparr>tabbar := tb\<lparr>tabs := insert_at (nat idx) t (tabs tb)\<rparr>\<rparr>;
          tw2 = (if tabs tb = [] then tabbar_setCurrentIndex idx tw1
                 else if idx \<le> tb_current tb
                   then tw1\<lparr>tabbar := (tabbar tw1)\<lparr>tb_current := tb_current tb + 1\<rparr>\<rparr>
                 else tw1)
      in (tw2, idx))"

definition tabbar_removeTab :: "int \<Rightarrow> TabWidget \<Rightarrow> TabWidget" where
  "tabbar_removeTab index tw =
     (let tb = tabbar tw
      in if \<not> tabbar_validIndex tb index then tw
         else
           let ts = delete_at (nat index) (tabs tb);
               tw1 = tw\<lparr>tabbar := tb\<lparr>tabs := ts\<rparr>\<rparr>
           in if index = tb_current tb then
                (let tw2 = tw1\<lparr>tabbar := (tabbar tw1)\<lparr>tb_current := -1\<rparr>\<rparr>
                 in if ts \<noteq> [] then
                      tabbar_setCurrentIndex (max 0 (min index (int (length ts) - 1))) tw2
                    else emit_currentChanged (-1) tw2)
              else if index < tb_current tb then
                tabbar_setCurrentIndex (tb_current tb - 1) tw1
              else tw1)"

section \<open>TabWidget (tabwidget.py)\<close>

definition count_tw :: "TabWidget \<Rightarrow> int" where
  "count_tw tw = stack_count (stack tw)"

definition widget_tw :: "TabWidget \<Rightarrow> int \<Rightarrow> widget option" where
  "widget_tw tw index = stack_widget (stack tw) index"

definition indexOf :: "TabWidget \<Rightarrow> widget \<Rightarrow> int" where
  "indexOf tw w = stack_indexOf (stack tw) w"

definition currentIndex :: "TabWidget \<Rightarrow> int" where
  "currentIndex tw = tb_current (tabbar tw)"

definition tabText :: "TabWidget \<Rightarrow> int \<Rightarrow> string" where
  "tabText tw index = (case tabbar_tab (tabbar tw) index of None \<Rightarrow> [] | Some t \<Rightarrow> tab_text t)"

definition tabIcon :: "TabWidget \<Rightarrow> int \<Rightarrow> icon" where
  "tabIcon tw index = (case tabbar_tab (tabbar tw) index of None \<Rightarrow> [] | Some t \<Rightarrow> tab_icon t)"

definition web_view :: "TabWidget \<Rightarrow> int \<Rightarrow> widget option" where
  "web_view tw index =
     (case widget_tw tw index of
        Some (WebView v ic) \<Rightarrow> Some (WebView v ic)
      | _ \<Rightarrow> None)"

definition current_web_view :: "TabWidget \<Rightarrow> widget option" where
  "current_web_view tw = web_view tw (currentIndex tw)"

definition addTab :: "widget \<Rightarrow> string \<Rightarrow> icon \<Rightarrow> TabWidget \<Rightarrow> TabWidget \<times> int" where
  "addTab w title ic tw =
     (let (tw1, idx) =
            tabbar_insertTab (-1) \<lparr>tab_text = title, tab_icon = ic, tab_owner = w\<rparr> tw
      in (tw1\<lparr>stack := stack_insertWidget idx w (stack tw1)\<rparr>, idx))"

definition insertTab :: "int \<Rightarrow> widget \<Rightarrow> string \<Rightarrow> icon \<Rightarrow> TabWidget \<Rightarrow> TabWidget \<times> int" where
  "insertTab index w title ic tw =
     (let tw1 = tw\<lparr>stack := stack_insertWidget index w (stack tw)\<rparr>
      in tabbar_insertTab index \<lparr>tab_text = title, tab_icon = ic, tab_owner = w\<rparr> tw1)"

definition removeTab :: "int \<Rightarrow> TabWidget \<Rightarrow> TabWidget" where
  "removeTab index tw =
     (let tw1 = (case stack_widget (stack tw) index of
                   None \<Rightarrow> tw
                 | Some w \<Rightarrow> tw\<lparr>stack := stack_removeWidget w (stack tw)\<rparr>)
      in tabbar_removeTab index tw1)"

definition setCurrentIndex :: "int \<Rightarrow> TabWidget \<Rightarrow> TabWidget" where
  "setCurrentIndex index tw =
     (if 0 \<le> index \<and> index < stack_count (stack tw) then
        (let tw1 = tabbar_setCurrentIndex index tw
         in tw1\<lparr>stack := stack_setCurrentIndex index (stack tw1)\<rparr>)
      else tw)"

text \<open>
  \<open>moveTab\<close> reads text and icon at \<open>from_index\<close> and builds the re-inserted entry from
  them; the tag travels with that data. \<open>tabText\<close> and \<open>tabIcon\<close> of an index the bar does
  not have are empty.
\<close>

definition moved_tab :: "TabWidget \<Rightarrow> int \<Rightarrow> widget \<Rightarrow> tab" where
  "moved_tab tw from_index w =
     \<lparr>tab_text = tabText tw from_index, tab_icon = tabIcon tw from_index,
      tab_owner = (case tabbar_tab (tabbar tw) from_index of
                     None \<Rightarrow> w | Some t \<Rightarrow> tab_owner t)\<rparr>"

definition moveTab :: "int \<Rightarrow> int \<Rightarrow> TabWidget \<Rightarrow> TabWidget" where
  "moveTab from_index to_index tw =
     (if from_index = to_index then tw
      else if from_index < 0 \<or> from_index \<ge> count_tw tw then tw
      else
        case stack_widget (stack tw) from_index of
          None \<Rightarrow> tw
        | Some w \<Rightarrow>
            let t = moved_tab tw from_index w;
                tw1 = tw\<lparr>stack := stack_removeWidget w (stack tw)\<rparr>;
                tw2 = tabbar_removeTab from_index tw1;
                new_count = count_tw tw2;
                to_index' = (if new_count > 0 then max 0 (min to_index new_count) else 0);
                tw3 = tw2\<lparr>stack := stack_insertWidget to_index' w (stack tw2)\<rparr>;
                tw4 = fst (tabbar_insertTab to_index' t tw3)
            in setCurrentIndex to_index' tw4)"

definition next_tab :: "TabWidget \<Rightarrow> TabWidget" where
  "next_tab tw =
     (let n = currentIndex tw + 1;
          n' = (if n = count_tw tw then 0 else n)
      in setCurrentIndex n' tw)"

definition previous_tab :: "TabWidget \<Rightarrow> TabWidget" where
  "previous_tab tw =
     (let n = currentIndex tw - 1;
          n' = (if n < 0 then count_tw tw - 1 else n)
      in setCurrentIndex n' tw)"

section \<open>BrowserWindow and Browser (browserwindow.py, browser.py)\<close>

type_synonym point = "int \<times> int"

definition point_minus :: "point \<Rightarrow> point \<Rightarrow> point" where
  "point_minus p q = (fst p - fst q, snd p - snd q)"

text \<open>
  The part of a window that the tab transfer protocol reads and writes: its tab widget, the
  drag sequence counter, the acceptance flag, where \<open>move\<close> put it, and whether \<open>close\<close>
  ran. Keyboard focus and visibility calls (\<open>hasFocus\<close>, \<open>setFocus\<close>, \<open>show\<close>,
  \<open>raise_\<close>, \<open>activateWindow\<close>) touch none of these and are left out.
\<close>

record BrowserWindow =
  tab_widget :: TabWidget
  drag_seq_counter :: int
  drag_seq_accepted :: int
  position :: point
  closed :: bool

text \<open>
  Windows are Python objects that several places refer to. A reference is a position in
  \<open>objects\<close>, an append-only store; \<open>Browser._windows\<close> is the list \<open>windows\<close> of
  references. \<open>download_manager\<close> is \<open>None\<close> until the dialog is created and then
  holds its \<open>_force_close\<close> flag.
\<close>

record Browser =
  windows :: "nat list"
  objects :: "BrowserWindow list"
  download_manager :: "bool option"

datatype error = AttributeError | OverflowError

definition update_window :: "nat \<Rightarrow> (BrowserWindow \<Rightarrow> BrowserWindow) \<Rightarrow> Browser \<Rightarrow> Browser" where
  "update_window r f br = br\<lparr>objects := (objects br)[r := f (objects br ! r)]\<rparr>"

definition new_drag_seq :: "BrowserWindow \<Rightarrow> BrowserWindow \<times> int" where
  "new_drag_seq w =
     (let c = drag_seq_counter w + 1 in (w\<lparr>drag_seq_counter := c\<rparr>, c))"

definition mark_drag_seq_accepted :: "int \<Rightarrow> BrowserWindow \<Rightarrow> BrowserWindow" where
  "mark_drag_seq_accepted seq w = w\<lparr>drag_seq_accepted := seq\<rparr>"

definition was_drag_seq_accepted :: "BrowserWindow \<Rightarrow> int \<Rightarrow> bool" where
  "was_drag_seq_accepted w seq = (drag_seq_accepted w = seq)"

definition new_BrowserWindow :: BrowserWindow where
  "new_BrowserWindow =
     \<lparr>tab_widget = empty_TabWidget, drag_seq_counter = 0, drag_seq_accepted = -1,
      position = (0, 0), closed = False\<rparr>"

definition create_hidden_window :: "Browser \<Rightarrow> Browser \<times> nat" where
  "create_hidden_window br =
     (let r = length (objects br)
      in (br\<lparr>objects := objects br @ [new_BrowserWindow], windows := windows br @ [r]\<rparr>, r))"

definition lookup_window :: "Browser \<Rightarrow> int \<Rightarrow> nat option" where
  "lookup_window br index = py_getitem (windows br) index"

text \<open>
  \<open>closeEvent\<close>: \<open>list.remove\<close> takes the first occurrence out and its ValueError is
  swallowed. When no window is left, \<open>download_manager()\<close> creates the dialog if there is
  none, and \<open>force_close\<close> sets its flag.
\<close>

definition closeEvent :: "nat \<Rightarrow> Browser \<Rightarrow> Browser" where
  "closeEvent self br =
     (let br1 = br\<lparr>windows := remove1 self (windows br)\<rparr>
      in if windows br1 = [] then br1\<lparr>download_manager := Some True\<rparr> else br1)"

definition close_window :: "nat \<Rightarrow> Browser \<Rightarrow> Browser" where
  "close_window self br = update_window self (\<lambda>w. w\<lparr>closed := True\<rparr>) (closeEvent self br)"

definition detach_offset :: point where
  "detach_offset = (60, 20)"

text \<open>
  With a tab count other than one, \<open>view.hasFocus()\<close> is called on whatever
  \<open>web_view\<close> returned; on \<open>None\<close> that raises AttributeError before anything is
  changed. \<open>receive_tab_from\<close> below tests \<open>view is None\<close> first; this function does not.
\<close>

definition detach_tab_to_new_window :: "int \<Rightarrow> point \<Rightarrow> nat \<Rightarrow> Browser \<Rightarrow> error + Browser" where
  "detach_tab_to_new_window from_index global_pos self br =
     (let tw = tab_widget (objects br ! self)
      in if count_tw tw = 1 then
           Inr (update_window self (\<lambda>w. w\<lparr>position := point_minus global_pos detach_offset\<rparr>) br)
         else
           case web_view tw from_index of
             None \<Rightarrow> Inl AttributeError
           | Some view \<Rightarrow>
               let txt = tabText tw from_index;
                   br1 = update_window self
                           (\<lambda>w. w\<lparr>tab_widget := removeTab from_index (tab_widget w)\<rparr>) br;
                   (br2, child) = create_hidden_window br1;
                   br3 = update_window child
                           (\<lambda>w. w\<lparr>tab_widget := fst (addTab view txt (fav_icon view) (tab_widget w))\<rparr>)
                           br2
               in Inr (update_window child
                         (\<lambda>w. w\<lparr>position := point_minus global_pos detach_offset\<rparr>) br3))"

definition receive_tab_from :: "nat \<Rightarrow> int \<Rightarrow> int \<Rightarrow> nat \<Rightarrow> Browser \<Rightarrow> Browser" where
  "receive_tab_from src_window src_index dst_index self br =
     (case web_view (tab_widget (objects br ! src_window)) src_index of
        None \<Rightarrow> br
      | Some view \<Rightarrow>
          let txt = tabText (tab_widget (objects br ! src_window)) src_index;
              br1 = update_window src_window
                      (\<lambda>w. w\<lparr>tab_widget := removeTab src_index (tab_widget w)\<rparr>) br;
              dst_index' = max 0 (min dst_index (count_tw (tab_widget (objects br1 ! self))));
              br2 = update_window self
                      (\<lambda>w. w\<lparr>tab_widget :=
                              fst (insertTab dst_index' view txt (fav_icon view) (tab_widget w))\<rparr>)
                      br1;
              br3 = update_window self
                      (\<lambda>w. w\<lparr>tab_widget := setCurrentIndex dst_index' (tab_widget w)\<rparr>) br2
          in if count_tw (tab_widget (objects br3 ! src_window)) = 0
             then close_window src_window br3
             else br3)"

text \<open>
  Qt's index parameters are C ints. A Python integer outside that range makes the binding
  raise OverflowError at the first Qt call that is given it. In \<open>receive_tab_from\<close> that
  call is \<open>QStackedWidget.widget(src_index)\<close>, reached from \<open>web_view\<close> on the first
  line, before anything is changed; \<open>dst_index\<close> is clamped by Python arithmetic before
  Qt sees it. \<open>receive_tab_from\<close> above is the function on source indices that a C int can
  hold, \<open>receive_tab_from_call\<close> is the call for every Python integer.
\<close>

definition c_int :: "int \<Rightarrow> bool" where
  "c_int i = (- (2 ^ 31) \<le> i \<and> i < 2 ^ 31)"

definition receive_tab_from_call :: "nat \<Rightarrow> int \<Rightarrow> int \<Rightarrow> nat \<Rightarrow> Browser \<Rightarrow> error + Browser" where
  "receive_tab_from_call src_window src_index dst_index self br =
     (if c_int src_index then Inr (receive_tab_from src_window src_index dst_index self br)
      else Inl OverflowError)"

section \<open>DragTabBar (dragtabbar.py)\<close>

text \<open>
  The transfer payload after \<open>dropEvent\<close> has read its three fields, and what Qt's
  hit test says about the drop position: the tab under the pointer (\<open>tabAt\<close>, \<open>-1\<close> for
  none) and whether the pointer is left of that tab's centre.
\<close>

record payload =
  payload_src_window_index :: int
  payload_src_index :: int
  payload_seq :: int

record drop_event =
  has_format :: bool
  drop_payload :: payload
  tab_at_pos :: int
  left_of_center :: bool

datatype drop_outcome = Accepted | Ignored | Unhandled

definition compute_dst_index :: "QTabBar \<Rightarrow> int \<Rightarrow> bool \<Rightarrow> int" where
  "compute_dst_index tb idx left =
     (if idx < 0 then tabbar_count tb else if left then idx else idx + 1)"

definition window_index :: "Browser \<Rightarrow> nat \<Rightarrow> int" where
  "window_index br w = (case find_index w (windows br) of None \<Rightarrow> -1 | Some k \<Rightarrow> int k)"

definition dropEvent :: "drop_event \<Rightarrow> nat \<Rightarrow> Browser \<Rightarrow> Browser \<times> drop_outcome" where
  "dropEvent ev dest_window br =
     (if \<not> has_format ev then (br, Unhandled)
      else
        let p = drop_payload ev;
            dst_index = compute_dst_index (tabbar (tab_widget (objects br ! dest_window)))
                          (tab_at_pos ev) (left_of_center ev);
            this_window_index = window_index br dest_window
        in if payload_src_window_index p = this_window_index then
             (let dst_index' = (if dst_index > payload_src_index p then dst_index - 1 else dst_index);
                  br1 = update_window dest_window
                          (\<lambda>w. w\<lparr>tab_widget := moveTab (payload_src_index p) (max 0 dst_index') (tab_widget w)\<rparr>)
                          br;
                  br2 = update_window dest_window (mark_drag_seq_accepted (payload_seq p)) br1
              in (br2, Accepted))
           else
             case py_getitem (windows br) (payload_src_window_index p) of
               None \<Rightarrow> (br, Ignored)
             | Some src_window \<Rightarrow>
                 (let br1 = receive_tab_from src_window (payload_src_index p) dst_index dest_window br;
                      br2 = update_window src_window (mark_drag_seq_accepted (payload_seq p)) br1
                  in (br2, Accepted)))"

text \<open>
  \<open>mouseMoveEvent\<close> in two halves, around \<open>drag.exec\<close>: the first draws a sequence
  number and builds the payload, the second runs when the drag has ended. The second half
  emits \<open>tabDetachRequested\<close>, whose slot is \<open>detach_tab_to_new_window\<close>:
  \<open>finish_drag\<close> is what that slot does, \<open>Inl\<close> when it raises. An exception raised in a
  slot is printed by the binding and dropped, and \<open>mouseMoveEvent\<close> goes on; \<open>after_drag\<close>
  is the state it returns with.
\<close>

definition start_drag :: "nat \<Rightarrow> int \<Rightarrow> Browser \<Rightarrow> Browser \<times> payload" where
  "start_drag src_win drag_start_index br =
     (let (w, s) = new_drag_seq (objects br ! src_win);
          br1 = update_window src_win (\<lambda>_. w) br
      in (br1, \<lparr>payload_src_window_index = window_index br1 src_win,
                payload_src_index = drag_start_index, payload_seq = s\<rparr>))"

definition finish_drag :: "nat \<Rightarrow> int \<Rightarrow> int \<Rightarrow> point \<Rightarrow> Browser \<Rightarrow> error + Browser" where
  "finish_drag src_win s drag_start_index global_pos br =
     (if \<not> was_drag_seq_accepted (objects br ! src_win) s
      then detach_tab_to_new_window drag_start_index global_pos src_win br
      else Inr br)"

definition after_drag :: "nat \<Rightarrow> int \<Rightarrow> int \<Rightarrow> point \<Rightarrow> Browser \<Rightarrow> Browser" where
  "after_drag src_win s drag_start_index global_pos br =
     (case finish_drag src_win s drag_start_index global_pos br of
        Inl _ \<Rightarrow> br
      | Inr br' \<Rightarrow> br')"

section \<open>Well-formedness of a tab strip\<close>

text \<open>
  The tab bar and the page stack are index-aligned when entry \<open>i\<close> of the bar is the one
  that was inserted for page \<open>i\<close> of the stack; in particular both have the same length.
  A page widget is an object, so it sits in a stack at most once.
\<close>

definition index_aligned :: "TabWidget \<Rightarrow> bool" where
  "index_aligned tw = (map tab_owner (entries tw) = pages tw)"

text \<open>
  Where an insertion at \<open>index\<close> lands in a sequence of \<open>n\<close> elements (an index out of
  range appends), and where \<open>moveTab\<close> puts the moved tab back in a strip of \<open>n\<close> tabs.
\<close>

definition insert_pos :: "int \<Rightarrow> nat \<Rightarrow> nat" where
  "insert_pos index n = (if index < 0 \<or> int n \<le> index then n else nat index)"

definition move_pos :: "int \<Rightarrow> nat \<Rightarrow> nat" where
  "move_pos to_index n = nat (max 0 (min to_index (int n - 1)))"

section \<open>Concrete strips and windows\<close>

text \<open>Small states on which the theorems below are instantiated.\<close>

definition view_a :: widget where "view_a = WebView 0 ''a.svg''"
definition view_b :: widget where "view_b = WebView 1 ''b.svg''"
definition view_c :: widget where "view_c = WebView 2 ''c.svg''"
definition view_d :: widget where "view_d = WebView 3 ''d.svg''"

definition tab_for :: "string \<Rightarrow> widget \<Rightarrow> tab" where
  "tab_for title w = \<lparr>tab_text = title, tab_icon = fav_icon w, tab_owner = w\<rparr>"

definition strip_abc :: TabWidget where
  "strip_abc =
     \<lparr>tabbar = \<lparr>tabs = [tab_for ''A'' view_a, tab_for ''B'' view_b, tab_for ''C'' view_c],
                tb_current = 0\<rparr>,
      stack = \<lparr>widgets = [view_a, view_b, view_c], st_current = 0\<rparr>\<rparr>"

definition strip_d :: TabWidget where
  "strip_d =
     \<lparr>tabbar = \<lparr>tabs = [tab_for ''D'' view_d], tb_current = 0\<rparr>,
      stack = \<lparr>widgets = [view_d], st_current = 0\<rparr>\<rparr>"

definition window_with :: "TabWidget \<Rightarrow> BrowserWindow" where
  "window_with tw = new_BrowserWindow\<lparr>tab_widget := tw\<rparr>"

definition two_windows :: Browser where
  "two_windows =
     \<lparr>windows = [0, 1], objects = [window_with strip_abc, window_with strip_d],
      download_manager = None\<rparr>"

definition drop_on :: "payload \<Rightarrow> int \<Rightarrow> bool \<Rightarrow> drop_event" where
  "drop_on p idx left =
     \<lparr>has_format = True, drop_payload = p, tab_at_pos = idx, left_of_center = left\<rparr>"

definition stale_payload :: payload where
  "stale_payload = \<lparr>payload_src_window_index = -1, payload_src_index = 0, payload_seq = 1\<rparr>"

definition stale_tab_payload :: payload where
  "stale_tab_payload = \<lparr>payload_src_window_index = 0, payload_src_index = 3, payload_seq = 1\<rparr>"







text \<open>
  The window list holds each window once, and every reference in it names an object.
\<close>

definition registry_ok :: "Browser \<Rightarrow> bool" where
  "registry_ok br = (distinct (windows br) \<and> list_all (\<lambda>r. r < length (objects br)) (windows br))"

section \<open>Facts about positional edits\<close>

lemma length_insert_at: "length (insert_at k x xs) = Suc (length xs)"
  by (simp add: insert_at_def)

lemma length_delete_at: "k < length xs \<Longrightarrow> length (delete_at k xs) = length xs - 1"
  by (simp add: delete_at_def)

lemma map_insert_at: "map f (insert_at k x xs) = insert_at k (f x) (map f xs)"
  by (simp add: insert_at_def take_map drop_map)

lemma map_delete_at: "map f (delete_at k xs) = delete_at k (map f xs)"
  by (simp add: delete_at_def take_map drop_map)

lemma mset_insert_at: "mset (insert_at k x xs) = add_mset x (mset xs)"
proof -
  have "mset (take k xs) + mset (drop k xs) = mset xs"
    by (metis append_take_drop_id mset_append)
  then show ?thesis by (simp add: insert_at_def)
qed

lemma set_insert_at: "set (insert_at k x xs) = insert x (set xs)"
proof -
  have "set (insert_at k x xs) = set_mset (mset (insert_at k x xs))" by simp
  also have "\<dots> = insert x (set xs)" by (simp only: mset_insert_at) simp
  finally show ?thesis .
qed

lemma distinct_insert_at: "distinct (insert_at k x xs) \<longleftrightarrow> x \<notin> set xs \<and> distinct xs"
proof -
  have "mset (insert_at k x xs) = mset (x # xs)" by (simp add: mset_insert_at)
  then have "distinct (insert_at k x xs) \<longleftrightarrow> distinct (x # xs)"
    by (rule mset_eq_imp_distinct_iff)
  then show ?thesis by simp
qed

lemma nth_insert_at: "k \<le> length xs \<Longrightarrow> insert_at k x xs ! k = x"
  by (simp add: insert_at_def nth_append)

lemma find_index_Some: "find_index x xs = Some k \<Longrightarrow> k < length xs \<and> xs ! k = x"
  by (induction xs arbitrary: k) (auto split: if_splits)

lemma find_index_None: "find_index x xs = None \<longleftrightarrow> x \<notin> set xs"
  by (induction xs) auto

lemma find_index_nth: "distinct xs \<Longrightarrow> k < length xs \<Longrightarrow> find_index (xs ! k) xs = Some k"
proof (induction xs arbitrary: k)
  case Nil
  then show ?case by simp
next
  case (Cons y ys)
  then show ?case by (cases k) auto
qed

lemma delete_at_remove1: "find_index x xs = Some k \<Longrightarrow> delete_at k xs = remove1 x xs"
proof (induction xs arbitrary: k)
  case Nil
  then show ?case by simp
next
  case (Cons y ys)
  then show ?case by (auto simp: delete_at_def split: if_splits)
qed

lemma delete_at_insert_at: "k \<le> length xs \<Longrightarrow> delete_at k (insert_at k x xs) = xs"
  by (simp add: delete_at_def insert_at_def min_def)

lemma insert_at_delete_at: "k < length xs \<Longrightarrow> insert_at k (xs ! k) (delete_at k xs) = xs"
  by (simp add: delete_at_def insert_at_def min_def id_take_nth_drop[symmetric])

lemma mset_delete_at: "k < length xs \<Longrightarrow> add_mset (xs ! k) (mset (delete_at k xs)) = mset xs"
proof -
  assume "k < length xs"
  then have "insert_at k (xs ! k) (delete_at k xs) = xs" by (rule insert_at_delete_at)
  then have "mset (insert_at k (xs ! k) (delete_at k xs)) = mset xs" by simp
  then show ?thesis by (simp only: mset_insert_at)
qed

lemma set_delete_at: "set (delete_at k xs) \<subseteq> set xs"
proof -
  have "set (take k xs) \<subseteq> set xs" by (rule set_take_subset)
  moreover have "set (drop (Suc k) xs) \<subseteq> set xs" by (rule set_drop_subset)
  ultimately show ?thesis by (simp add: delete_at_def)
qed

lemma distinct_delete_at: "distinct xs \<Longrightarrow> distinct (delete_at k xs)"
proof -
  assume d: "distinct xs"
  have "set (take k xs) \<inter> set (drop (Suc k) xs) = {}"
    using d by (rule set_take_disj_set_drop_if_distinct) simp
  with d show ?thesis by (simp add: delete_at_def)
qed

lemma delete_at_notin:
  assumes d: "distinct xs" and k: "k < length xs"
  shows "xs ! k \<notin> set (delete_at k xs)"
proof -
  from k have "insert_at k (xs ! k) (delete_at k xs) = xs" by (rule insert_at_delete_at)
  with d have "distinct (insert_at k (xs ! k) (delete_at k xs))" by simp
  then show ?thesis by (simp add: distinct_insert_at)
qed

section \<open>What the Qt containers do to the two sequences\<close>

lemma widgets_stack_setCurrentIndex [simp]: "widgets (stack_setCurrentIndex i s) = widgets s"
  by (simp add: stack_setCurrentIndex_def split: option.splits)

lemma widgets_stack_insertWidget:
  "widgets (stack_insertWidget index w s) =
     insert_at (nat (if min index (stack_count s) < 0 then stack_count s
                     else min index (stack_count s))) w (widgets s)"
  by (simp add: stack_insertWidget_def Let_def)

lemma widgets_stack_takeAt [simp]: "widgets (stack_takeAt k s) = delete_at k (widgets s)"
  by (simp add: stack_takeAt_def Let_def)

lemma widgets_stack_removeWidget: "widgets (stack_removeWidget w s) = remove1 w (widgets s)"
  by (simp add: stack_removeWidget_def delete_at_remove1 find_index_None remove1_idem
           split: option.splits)

lemma tabbar_emit_currentChanged [simp]: "tabbar (emit_currentChanged i tw) = tabbar tw"
  by (simp add: emit_currentChanged_def)

lemma pages_emit_currentChanged [simp]: "pages (emit_currentChanged i tw) = pages tw"
  by (simp add: emit_currentChanged_def)

lemma entries_tabbar_setCurrentIndex [simp]: "entries (tabbar_setCurrentIndex i tw) = entries tw"
  by (simp add: tabbar_setCurrentIndex_def Let_def)

lemma pages_tabbar_setCurrentIndex [simp]: "pages (tabbar_setCurrentIndex i tw) = pages tw"
  by (simp add: tabbar_setCurrentIndex_def Let_def)

lemma current_tabbar_setCurrentIndex:
  "tb_current (tabbar (tabbar_setCurrentIndex i tw)) =
     (if tabbar_validIndex (tabbar tw) i then i else tb_current (tabbar tw))"
  by (simp add: tabbar_setCurrentIndex_def Let_def)

lemma entries_tabbar_insertTab:
  "entries (fst (tabbar_insertTab index t tw)) =
     insert_at (nat (if tabbar_validIndex (tabbar tw) index then index
                     else tabbar_count (tabbar tw))) t (entries tw)"
  by (simp add: tabbar_insertTab_def Let_def)

lemma pages_tabbar_insertTab [simp]: "pages (fst (tabbar_insertTab index t tw)) = pages tw"
  by (simp add: tabbar_insertTab_def Let_def)

lemma entries_tabbar_removeTab:
  "entries (tabbar_removeTab index tw) =
     (if tabbar_validIndex (tabbar tw) index then delete_at (nat index) (entries tw)
      else entries tw)"
  by (simp add: tabbar_removeTab_def Let_def)

lemma pages_tabbar_removeTab [simp]: "pages (tabbar_removeTab index tw) = pages tw"
  by (simp add: tabbar_removeTab_def Let_def)

section \<open>What the TabWidget operations do to the two sequences\<close>

lemma remove1_nth_distinct:
  "distinct xs \<Longrightarrow> k < length xs \<Longrightarrow> remove1 (xs ! k) xs = delete_at k xs"
  using delete_at_remove1 [OF find_index_nth, of xs k] by simp

lemma insert_at_end: "insert_at (length xs) x xs = xs @ [x]"
  by (simp add: insert_at_def)

lemma aligned_length: "index_aligned tw \<Longrightarrow> length (entries tw) = length (pages tw)"
  unfolding index_aligned_def by (metis length_map)

lemma aligned_nth:
  "index_aligned tw \<Longrightarrow> i < length (pages tw) \<Longrightarrow> tab_owner (entries tw ! i) = pages tw ! i"
  unfolding index_aligned_def by (metis length_map nth_map)

lemma pages_setCurrentIndex [simp]: "pages (setCurrentIndex i tw) = pages tw"
  by (simp add: setCurrentIndex_def Let_def)

lemma entries_setCurrentIndex [simp]: "entries (setCurrentIndex i tw) = entries tw"
  by (simp add: setCurrentIndex_def Let_def)

lemma currentIndex_setCurrentIndex:
  "length (entries tw) = length (pages tw) \<Longrightarrow> 0 \<le> i \<Longrightarrow> i < count_tw tw \<Longrightarrow>
     currentIndex (setCurrentIndex i tw) = i"
  by (simp add: setCurrentIndex_def Let_def currentIndex_def count_tw_def stack_count_def
        current_tabbar_setCurrentIndex tabbar_validIndex_def tabbar_count_def)

lemma entries_addTab:
  "entries (fst (addTab w title ic tw)) =
     entries tw @ [\<lparr>tab_text = title, tab_icon = ic, tab_owner = w\<rparr>]"
  by (simp add: addTab_def split_def Let_def entries_tabbar_insertTab tabbar_validIndex_def
        tabbar_count_def insert_at_end)

lemma snd_tabbar_insertTab:
  "snd (tabbar_insertTab index t tw) =
     (if tabbar_validIndex (tabbar tw) index then index else tabbar_count (tabbar tw))"
  by (simp add: tabbar_insertTab_def Let_def)

lemma pages_addTab:
  "length (entries tw) = length (pages tw) \<Longrightarrow> pages (fst (addTab w title ic tw)) = pages tw @ [w]"
  by (simp add: addTab_def split_def Let_def widgets_stack_insertWidget snd_tabbar_insertTab
        tabbar_validIndex_def tabbar_count_def stack_count_def insert_at_end)

lemma pages_insertTab:
  "pages (fst (insertTab index w title ic tw)) =
     insert_at (insert_pos index (length (pages tw))) w (pages tw)"
  by (auto simp add: insertTab_def Let_def widgets_stack_insertWidget stack_count_def
        insert_pos_def min_def)

lemma entries_insertTab:
  "entries (fst (insertTab index w title ic tw)) =
     insert_at (insert_pos index (length (entries tw)))
       \<lparr>tab_text = title, tab_icon = ic, tab_owner = w\<rparr> (entries tw)"
  by (auto simp add: insertTab_def Let_def entries_tabbar_insertTab tabbar_validIndex_def
        tabbar_count_def insert_pos_def)

lemma pages_removeTab:
  "pages (removeTab index tw) =
     (case stack_widget (stack tw) index of None \<Rightarrow> pages tw | Some w \<Rightarrow> remove1 w (pages tw))"
  by (simp add: removeTab_def Let_def widgets_stack_removeWidget split: option.splits)

lemma pages_removeTab_distinct:
  "distinct (pages tw) \<Longrightarrow> 0 \<le> index \<Longrightarrow> index < count_tw tw \<Longrightarrow>
     pages (removeTab index tw) = delete_at (nat index) (pages tw)"
  by (simp add: pages_removeTab stack_widget_def count_tw_def stack_count_def
        remove1_nth_distinct)

lemma pages_removeTab_invalid:
  "\<not> (0 \<le> index \<and> index < count_tw tw) \<Longrightarrow> pages (removeTab index tw) = pages tw"
  by (auto simp add: pages_removeTab stack_widget_def count_tw_def)

lemma entries_removeTab:
  "entries (removeTab index tw) =
     (if 0 \<le> index \<and> index < int (length (entries tw)) then delete_at (nat index) (entries tw)
      else entries tw)"
  by (auto simp add: removeTab_def Let_def entries_tabbar_removeTab tabbar_validIndex_def
        tabbar_count_def split: option.splits)

subsection \<open>moveTab\<close>

lemma moved_tab_valid:
  "0 \<le> i \<Longrightarrow> i < int (length (entries tw)) \<Longrightarrow> moved_tab tw i w = entries tw ! nat i"
  by (simp add: moved_tab_def tabText_def tabIcon_def tabbar_tab_def tabbar_validIndex_def
        tabbar_count_def)

lemma move_pos_code:
  "0 < n \<Longrightarrow>
     (if int n - 1 > 0 then max 0 (min to_index (int n - 1)) else 0) = int (move_pos to_index n)"
  by (auto simp add: move_pos_def)

lemma move_pos_le: "0 < n \<Longrightarrow> move_pos to_index n \<le> n - 1"
  by (auto simp add: move_pos_def)

lemma count_after_removeWidget:
  "k < length (pages tw) \<Longrightarrow>
     count_tw (tabbar_removeTab i (tw\<lparr>stack := stack_removeWidget (pages tw ! k) (stack tw)\<rparr>)) =
       int (length (pages tw)) - 1"
  by (simp add: count_tw_def stack_count_def widgets_stack_removeWidget length_remove1)

lemma moveTab_unfold:
  assumes "from_index \<noteq> to_index" "0 \<le> from_index" "from_index < count_tw tw"
  shows "moveTab from_index to_index tw =
     (let w = pages tw ! nat from_index;
          tw2 = tabbar_removeTab from_index (tw\<lparr>stack := stack_removeWidget w (stack tw)\<rparr>);
          k = int (move_pos to_index (length (pages tw)));
          tw3 = tw2\<lparr>stack := stack_insertWidget k w (stack tw2)\<rparr>
      in setCurrentIndex k (fst (tabbar_insertTab k (moved_tab tw from_index w) tw3)))"
proof -
  have f: "nat from_index < length (pages tw)"
    using assms by (simp add: count_tw_def stack_count_def)
  then have n: "0 < length (pages tw)" by linarith
  have "moveTab from_index to_index tw =
     (let w = pages tw ! nat from_index;
          tw2 = tabbar_removeTab from_index (tw\<lparr>stack := stack_removeWidget w (stack tw)\<rparr>);
          k = (if count_tw tw2 > 0 then max 0 (min to_index (count_tw tw2)) else 0);
          tw3 = tw2\<lparr>stack := stack_insertWidget k w (stack tw2)\<rparr>
      in setCurrentIndex k (fst (tabbar_insertTab k (moved_tab tw from_index w) tw3)))"
    using assms by (simp add: moveTab_def stack_widget_def count_tw_def Let_def)
  then show ?thesis
    by (simp only: Let_def count_after_removeWidget [OF f] move_pos_code [OF n])
qed

lemma pages_reinsert:
  "0 \<le> k \<Longrightarrow> k \<le> int (length (pages tw2)) \<Longrightarrow>
     pages (setCurrentIndex k (fst (tabbar_insertTab k t
              (tw2\<lparr>stack := stack_insertWidget k w (stack tw2)\<rparr>)))) =
       insert_at (nat k) w (pages tw2)"
  by (simp add: widgets_stack_insertWidget stack_count_def min_def)

lemma entries_reinsert:
  "0 \<le> k \<Longrightarrow> k \<le> int (length (entries tw2)) \<Longrightarrow>
     entries (setCurrentIndex k (fst (tabbar_insertTab k t (tw2\<lparr>stack := s\<rparr>)))) =
       insert_at (nat k) t (entries tw2)"
  by (auto simp add: entries_tabbar_insertTab tabbar_validIndex_def tabbar_count_def)

lemma moveTab_pages:
  assumes "distinct (pages tw)" "from_index \<noteq> to_index" "0 \<le> from_index"
    "from_index < count_tw tw"
  shows "pages (moveTab from_index to_index tw) =
     insert_at (move_pos to_index (length (pages tw))) (pages tw ! nat from_index)
       (delete_at (nat from_index) (pages tw))"
proof -
  let ?f = "nat from_index"
  let ?w = "pages tw ! ?f"
  let ?tw2 = "tabbar_removeTab from_index (tw\<lparr>stack := stack_removeWidget ?w (stack tw)\<rparr>)"
  let ?k = "int (move_pos to_index (length (pages tw)))"
  have f: "?f < length (pages tw)"
    using assms by (simp add: count_tw_def stack_count_def)
  have p2: "pages ?tw2 = delete_at ?f (pages tw)"
    using assms(1) f by (simp add: widgets_stack_removeWidget remove1_nth_distinct)
  from f have n: "0 < length (pages tw)" by linarith
  have k: "?k \<le> int (length (pages ?tw2))"
    using n move_pos_le [OF n, of to_index]
    by (simp only: p2 length_delete_at [OF f])
  have "pages (moveTab from_index to_index tw) = insert_at (nat ?k) ?w (pages ?tw2)"
    unfolding moveTab_unfold [OF assms(2-4)] Let_def
    by (rule pages_reinsert [OF _ k]) simp
  then show ?thesis by (simp only: p2 nat_int)
qed

lemma moveTab_entries:
  assumes "length (entries tw) = length (pages tw)"
    "from_index \<noteq> to_index" "0 \<le> from_index" "from_index < count_tw tw"
  shows "entries (moveTab from_index to_index tw) =
     insert_at (move_pos to_index (length (entries tw))) (entries tw ! nat from_index)
       (delete_at (nat from_index) (entries tw))"
proof -
  let ?f = "nat from_index"
  let ?w = "pages tw ! ?f"
  let ?tw1 = "tw\<lparr>stack := stack_removeWidget ?w (stack tw)\<rparr>"
  let ?tw2 = "tabbar_removeTab from_index ?tw1"
  let ?k = "int (move_pos to_index (length (pages tw)))"
  have f: "?f < length (pages tw)"
    using assms by (simp add: count_tw_def stack_count_def)
  have fi: "from_index < int (length (pages tw))"
    using assms(4) by (simp add: count_tw_def stack_count_def)
  have e2: "entries ?tw2 = delete_at ?f (entries tw)"
    using fi assms(1,3)
    by (simp add: entries_tabbar_removeTab tabbar_validIndex_def tabbar_count_def)
  have mt: "moved_tab tw from_index ?w = entries tw ! ?f"
    using fi assms(1,3) by (simp add: moved_tab_valid)
  from f have n: "0 < length (pages tw)" by linarith
  from f assms(1) have fe: "?f < length (entries tw)" by simp
  have k: "?k \<le> int (length (entries ?tw2))"
    using n move_pos_le [OF n, of to_index] assms(1)
    by (simp only: e2 length_delete_at [OF fe])
  have "entries (moveTab from_index to_index tw) =
          insert_at (nat ?k) (moved_tab tw from_index ?w) (entries ?tw2)"
    unfolding moveTab_unfold [OF assms(2-4)] Let_def
    by (rule entries_reinsert [OF _ k]) simp
  then show ?thesis by (simp only: e2 mt nat_int assms(1))
qed

lemma current_reinsert:
  assumes "0 \<le> k" "k \<le> int (length (pages tw2))" "length (entries tw2) = length (pages tw2)"
  shows "currentIndex (setCurrentIndex k (fst (tabbar_insertTab k t
              (tw2\<lparr>stack := stack_insertWidget k w (stack tw2)\<rparr>)))) = k"
proof (rule currentIndex_setCurrentIndex)
  show "length (entries (fst (tabbar_insertTab k t
              (tw2\<lparr>stack := stack_insertWidget k w (stack tw2)\<rparr>)))) =
        length (pages (fst (tabbar_insertTab k t
              (tw2\<lparr>stack := stack_insertWidget k w (stack tw2)\<rparr>))))"
    using assms(3)
    by (simp add: entries_tabbar_insertTab widgets_stack_insertWidget length_insert_at)
  show "0 \<le> k" by (rule assms(1))
  show "k < count_tw (fst (tabbar_insertTab k t
              (tw2\<lparr>stack := stack_insertWidget k w (stack tw2)\<rparr>)))"
    using assms(2)
    by (simp add: count_tw_def stack_count_def widgets_stack_insertWidget length_insert_at)
qed

lemma moveTab_current:
  assumes "length (entries tw) = length (pages tw)"
    "from_index \<noteq> to_index" "0 \<le> from_index" "from_index < count_tw tw"
  shows "currentIndex (moveTab from_index to_index tw) =
           int (move_pos to_index (length (pages tw)))"
proof -
  let ?f = "nat from_index"
  let ?w = "pages tw ! ?f"
  let ?tw1 = "tw\<lparr>stack := stack_removeWidget ?w (stack tw)\<rparr>"
  let ?tw2 = "tabbar_removeTab from_index ?tw1"
  let ?k = "int (move_pos to_index (length (pages tw)))"
  have f: "?f < length (pages tw)"
    using assms by (simp add: count_tw_def stack_count_def)
  from f have n: "0 < length (pages tw)" by linarith
  have fi: "from_index < int (length (pages tw))"
    using assms(4) by (simp add: count_tw_def stack_count_def)
  have p2: "length (pages ?tw2) = length (pages tw) - 1"
    using f by (simp add: widgets_stack_removeWidget length_remove1)
  have e2: "length (entries ?tw2) = length (pages tw) - 1"
    using fi f assms(1,3)
    by (simp add: entries_tabbar_removeTab tabbar_validIndex_def tabbar_count_def
          length_delete_at)
  have k: "?k \<le> int (length (pages ?tw2))"
    using move_pos_le [OF n, of to_index] by (simp only: p2)
  show ?thesis
    unfolding moveTab_unfold [OF assms(2-4)] Let_def
    by (rule current_reinsert [OF _ k]) (simp_all only: e2 p2)
qed

section \<open>Reordering within one strip\<close>

lemma strip_abc_built:
  "fst (addTab view_c ''C'' (fav_icon view_c)
     (fst (addTab view_b ''B'' (fav_icon view_b)
        (fst (addTab view_a ''A'' (fav_icon view_a) empty_TabWidget))))) = strip_abc"
  by code_simp


text \<open>
  C6. In a strip of \<open>N\<close> tabs whose bar and stack have the same length and whose pages are
  distinct objects, \<open>moveTab from_index to_index\<close> with \<open>from_index\<close> in \<open>[0, N)\<close>
  yields a permutation of the same \<open>N\<close> handles, in the stack and in the tab bar alike.
  The handle that was at \<open>from_index\<close> ends at position \<open>move_pos to_index N\<close>; taking
  it out of the result and out of the original leaves the same sequence, so every other
  handle keeps its relative order. With \<open>from_index = to_index\<close> nothing changes.
\<close>

theorem moveTab_permutes:
  assumes "length (entries tw) = length (pages tw)" and "distinct (pages tw)"
    and "0 \<le> from_index" and "from_index < count_tw tw"
  shows "(from_index = to_index \<longrightarrow> moveTab from_index to_index tw = tw) \<and>
         mset (pages (moveTab from_index to_index tw)) = mset (pages tw) \<and>
         mset (entries (moveTab from_index to_index tw)) = mset (entries tw) \<and>
         length (pages (moveTab from_index to_index tw)) = length (pages tw) \<and>
         length (entries (moveTab from_index to_index tw)) = length (entries tw) \<and>
         move_pos to_index (length (pages tw)) < length (pages tw) \<and>
         pages (moveTab from_index to_index tw) ! move_pos to_index (length (pages tw)) =
           pages tw ! nat from_index \<and>
         entries (moveTab from_index to_index tw) ! move_pos to_index (length (pages tw)) =
           entries tw ! nat from_index \<and>
         delete_at (move_pos to_index (length (pages tw))) (pages (moveTab from_index to_index tw)) =
           delete_at (nat from_index) (pages tw) \<and>
         delete_at (move_pos to_index (length (pages tw))) (entries (moveTab from_index to_index tw)) =
           delete_at (nat from_index) (entries tw)"
proof (cases "from_index = to_index")
  case True
  have f: "nat from_index < length (pages tw)"
    using assms(3,4) by (simp add: count_tw_def stack_count_def)
  have same: "moveTab from_index to_index tw = tw"
    using True by (simp add: moveTab_def)
  have k: "move_pos to_index (length (pages tw)) = nat from_index"
    using True f assms(3) by (auto simp add: move_pos_def)
  show ?thesis
    unfolding same k using f by simp
next
  case False
  let ?f = "nat from_index"
  let ?n = "length (pages tw)"
  let ?k = "move_pos to_index ?n"
  have f: "?f < ?n"
    using assms(3,4) by (simp add: count_tw_def stack_count_def)
  from f have n: "0 < ?n" by linarith
  have fe: "?f < length (entries tw)" using f assms(1) by simp
  have k: "?k \<le> ?n - 1" by (rule move_pos_le [OF n])
  have kd: "?k \<le> length (delete_at ?f (pages tw))"
    using k by (simp only: length_delete_at [OF f])
  have kde: "?k \<le> length (delete_at ?f (entries tw))"
    using k by (simp only: length_delete_at [OF fe] assms(1))
  have P: "pages (moveTab from_index to_index tw) =
             insert_at ?k (pages tw ! ?f) (delete_at ?f (pages tw))"
    by (rule moveTab_pages [OF assms(2) False assms(3,4)])
  have E: "entries (moveTab from_index to_index tw) =
             insert_at ?k (entries tw ! ?f) (delete_at ?f (entries tw))"
    using moveTab_entries [OF assms(1) False assms(3,4)] by (simp only: assms(1))
  have mp: "mset (pages (moveTab from_index to_index tw)) = mset (pages tw)"
    by (simp only: P mset_insert_at mset_delete_at [OF f])
  have me: "mset (entries (moveTab from_index to_index tw)) = mset (entries tw)"
    by (simp only: E mset_insert_at mset_delete_at [OF fe])
  have lp: "length (pages (moveTab from_index to_index tw)) = length (pages tw)"
    using mp by (rule mset_eq_length)
  have le: "length (entries (moveTab from_index to_index tw)) = length (entries tw)"
    using me by (rule mset_eq_length)
  have kn: "?k < ?n" using k n by linarith
  have 1: "pages (moveTab from_index to_index tw) ! ?k = pages tw ! ?f"
    by (simp only: P nth_insert_at [OF kd])
  have 2: "entries (moveTab from_index to_index tw) ! ?k = entries tw ! ?f"
    by (simp only: E nth_insert_at [OF kde])
  have 3: "delete_at ?k (pages (moveTab from_index to_index tw)) = delete_at ?f (pages tw)"
    by (simp only: P delete_at_insert_at [OF kd])
  have 4: "delete_at ?k (entries (moveTab from_index to_index tw)) = delete_at ?f (entries tw)"
    by (simp only: E delete_at_insert_at [OF kde])
  from False mp me lp le kn 1 2 3 4 show ?thesis by blast
qed

theorem moveTab_permutes_witness:
  "length (entries strip_abc) = length (pages strip_abc) \<and> distinct (pages strip_abc) \<and>
   (0::int) \<le> 0 \<and> 0 < count_tw strip_abc \<and> (0::int) \<le> 1 \<and> 1 < count_tw strip_abc \<and>
   pages (moveTab 0 2 strip_abc) = [view_b, view_c, view_a] \<and>
   mset (pages (moveTab 0 2 strip_abc)) = mset (pages strip_abc) \<and>
   delete_at 2 (pages (moveTab 0 2 strip_abc)) = delete_at 0 (pages strip_abc) \<and>
   moveTab 1 1 strip_abc = strip_abc"
proof -
  have h1: "length (entries strip_abc) = length (pages strip_abc)" by code_simp
  have h2: "distinct (pages strip_abc)" by code_simp
  have h3: "(0::int) \<le> 0" by simp
  have h4: "0 < count_tw strip_abc" by code_simp
  have h5: "(0::int) \<le> 1" by simp
  have h6: "1 < count_tw strip_abc" by code_simp
  have r: "pages (moveTab 0 2 strip_abc) = [view_b, view_c, view_a]" by code_simp
  have k: "move_pos 2 (length (pages strip_abc)) = 2" by code_simp
  have n: "nat 0 = 0" by simp
  have t: "mset (pages (moveTab 0 2 strip_abc)) = mset (pages strip_abc) \<and>
           delete_at 2 (pages (moveTab 0 2 strip_abc)) = delete_at 0 (pages strip_abc)"
    using moveTab_permutes [OF h1 h2 h3 h4, of 2, unfolded k n] by blast
  have s: "moveTab 1 1 strip_abc = strip_abc"
    using moveTab_permutes [OF h1 h2 h5 h6, of 1, THEN conjunct1] by blast
  from h1 h2 h3 h4 h5 h6 r t s show ?thesis by blast
qed

section \<open>The alignment invariant\<close>

lemma aligned_iff_pointwise:
  "index_aligned tw \<longleftrightarrow>
     length (entries tw) = length (pages tw) \<and>
     (\<forall>i < length (pages tw). tab_owner (entries tw ! i) = pages tw ! i)"
  unfolding index_aligned_def by (auto simp add: list_eq_iff_nth_eq)

lemma aligned_empty: "index_aligned empty_TabWidget \<and> distinct (pages empty_TabWidget)"
  by (simp add: index_aligned_def empty_TabWidget_def)

lemma addTab_keeps:
  assumes "index_aligned tw" "distinct (pages tw)" "w \<notin> set (pages tw)"
  shows "index_aligned (fst (addTab w title ic tw))"
    and "distinct (pages (fst (addTab w title ic tw)))"
proof -
  have l: "length (entries tw) = length (pages tw)" by (rule aligned_length [OF assms(1)])
  show "index_aligned (fst (addTab w title ic tw))"
    using assms(1) by (simp add: index_aligned_def entries_addTab pages_addTab [OF l])
  show "distinct (pages (fst (addTab w title ic tw)))"
    using assms(2,3) by (simp add: pages_addTab [OF l])
qed

lemma insertTab_keeps:
  assumes "index_aligned tw" "distinct (pages tw)" "w \<notin> set (pages tw)"
  shows "index_aligned (fst (insertTab index w title ic tw))"
    and "distinct (pages (fst (insertTab index w title ic tw)))"
proof -
  have l: "length (entries tw) = length (pages tw)" by (rule aligned_length [OF assms(1)])
  show "index_aligned (fst (insertTab index w title ic tw))"
    using assms(1)
    by (simp add: index_aligned_def entries_insertTab pages_insertTab l map_insert_at)
  show "distinct (pages (fst (insertTab index w title ic tw)))"
    using assms(2,3) by (simp add: pages_insertTab distinct_insert_at)
qed

lemma removeTab_keeps:
  assumes "index_aligned tw" "distinct (pages tw)"
  shows "index_aligned (removeTab index tw)"
    and "distinct (pages (removeTab index tw))"
proof -
  have l: "length (entries tw) = length (pages tw)" by (rule aligned_length [OF assms(1)])
  have "index_aligned (removeTab index tw) \<and> distinct (pages (removeTab index tw))"
  proof (cases "0 \<le> index \<and> index < count_tw tw")
    case True
    then have v: "0 \<le> index \<and> index < int (length (entries tw))"
      by (simp add: count_tw_def stack_count_def l)
    have p: "pages (removeTab index tw) = delete_at (nat index) (pages tw)"
      using True by (simp add: pages_removeTab_distinct [OF assms(2)])
    have e: "entries (removeTab index tw) = delete_at (nat index) (entries tw)"
      using v by (simp add: entries_removeTab)
    show ?thesis
      using assms by (simp add: index_aligned_def p e map_delete_at distinct_delete_at)
  next
    case False
    then have v: "\<not> (0 \<le> index \<and> index < int (length (entries tw)))"
      by (simp add: count_tw_def stack_count_def l)
    have p: "pages (removeTab index tw) = pages tw"
      by (rule pages_removeTab_invalid [OF False])
    have e: "entries (removeTab index tw) = entries tw"
      using v by (auto simp add: entries_removeTab)
    show ?thesis using assms by (simp add: index_aligned_def p e)
  qed
  then show "index_aligned (removeTab index tw)"
    and "distinct (pages (removeTab index tw))" by simp_all
qed

lemma moveTab_keeps:
  assumes "index_aligned tw" "distinct (pages tw)"
  shows "index_aligned (moveTab from_index to_index tw)"
    and "distinct (pages (moveTab from_index to_index tw))"
proof -
  have l: "length (entries tw) = length (pages tw)" by (rule aligned_length [OF assms(1)])
  have "index_aligned (moveTab from_index to_index tw) \<and>
        distinct (pages (moveTab from_index to_index tw))"
  proof (cases "from_index \<noteq> to_index \<and> 0 \<le> from_index \<and> from_index < count_tw tw")
    case True
    let ?f = "nat from_index"
    let ?k = "move_pos to_index (length (pages tw))"
    have f: "?f < length (pages tw)"
      using True by (auto simp add: count_tw_def stack_count_def)
    have P: "pages (moveTab from_index to_index tw) =
               insert_at ?k (pages tw ! ?f) (delete_at ?f (pages tw))"
      using True by (simp add: moveTab_pages [OF assms(2)])
    have E: "entries (moveTab from_index to_index tw) =
               insert_at ?k (entries tw ! ?f) (delete_at ?f (entries tw))"
      using True moveTab_entries [OF l, of from_index to_index] by (simp add: l)
    have o: "tab_owner (entries tw ! ?f) = pages tw ! ?f"
      by (rule aligned_nth [OF assms(1) f])
    have a: "index_aligned (moveTab from_index to_index tw)"
      using assms(1) by (simp add: index_aligned_def P E map_insert_at map_delete_at o)
    have d: "distinct (pages (moveTab from_index to_index tw))"
      using delete_at_notin [OF assms(2) f] distinct_delete_at [OF assms(2), of ?f]
      by (simp add: P distinct_insert_at)
    from a d show ?thesis ..
  next
    case False
    then have "moveTab from_index to_index tw = tw"
      by (auto simp add: moveTab_def)
    then show ?thesis using assms by simp
  qed
  then show "index_aligned (moveTab from_index to_index tw)"
    and "distinct (pages (moveTab from_index to_index tw))" by simp_all
qed

text \<open>
  C8. From a strip whose tab bar and page stack are index-aligned (and whose pages are
  distinct objects), each of \<open>addTab\<close>, \<open>insertTab\<close> (of a widget not yet in the strip),
  \<open>removeTab\<close> and \<open>moveTab\<close> leads to a strip whose two sequences have the same length and
  are index-aligned again, with pages still distinct.
\<close>

theorem strip_operations_keep_alignment:
  assumes "index_aligned tw" and "distinct (pages tw)" and "w \<notin> set (pages tw)"
  shows "(length (entries (fst (addTab w title ic tw))) = length (pages (fst (addTab w title ic tw))) \<and>
          index_aligned (fst (addTab w title ic tw)) \<and>
          distinct (pages (fst (addTab w title ic tw)))) \<and>
         (length (entries (fst (insertTab index w title ic tw))) =
            length (pages (fst (insertTab index w title ic tw))) \<and>
          index_aligned (fst (insertTab index w title ic tw)) \<and>
          distinct (pages (fst (insertTab index w title ic tw)))) \<and>
         (length (entries (removeTab index tw)) = length (pages (removeTab index tw)) \<and>
          index_aligned (removeTab index tw) \<and>
          distinct (pages (removeTab index tw))) \<and>
         (length (entries (moveTab from_index to_index tw)) =
            length (pages (moveTab from_index to_index tw)) \<and>
          index_aligned (moveTab from_index to_index tw) \<and>
          distinct (pages (moveTab from_index to_index tw)))"
  using addTab_keeps [OF assms, of title ic] insertTab_keeps [OF assms, of index title ic]
    removeTab_keeps [OF assms(1,2), of index]
    moveTab_keeps [OF assms(1,2), of from_index to_index]
  by (simp add: aligned_length)

theorem strip_operations_keep_alignment_witness:
  "index_aligned strip_abc \<and> distinct (pages strip_abc) \<and> view_d \<notin> set (pages strip_abc) \<and>
   index_aligned (fst (addTab view_d ''D'' ''d.svg'' strip_abc)) \<and>
   index_aligned (fst (insertTab 1 view_d ''D'' ''d.svg'' strip_abc)) \<and>
   index_aligned (removeTab 1 strip_abc) \<and>
   index_aligned (moveTab 2 0 strip_abc) \<and>
   pages (fst (insertTab 1 view_d ''D'' ''d.svg'' strip_abc)) = [view_a, view_d, view_b, view_c]"
proof -
  have h1: "index_aligned strip_abc" by code_simp
  have h2: "distinct (pages strip_abc)" by code_simp
  have h3: "view_d \<notin> set (pages strip_abc)" by code_simp
  have r: "pages (fst (insertTab 1 view_d ''D'' ''d.svg'' strip_abc)) =
             [view_a, view_d, view_b, view_c]" by code_simp
  show ?thesis
    using h1 h2 h3 r
      strip_operations_keep_alignment [OF h1 h2 h3, of "''D''" "''d.svg''" 1 2 0]
    by simp
qed

section \<open>Cycling through the tabs\<close>

lemma count_tw_setCurrentIndex [simp]: "count_tw (setCurrentIndex i tw) = count_tw tw"
  by (simp add: count_tw_def stack_count_def)

lemma next_tab_step:
  assumes "length (entries tw) = length (pages tw)" "0 \<le> currentIndex tw"
    "currentIndex tw < count_tw tw"
  shows "currentIndex (next_tab tw) =
           (if currentIndex tw + 1 = count_tw tw then 0 else currentIndex tw + 1)"
proof (cases "currentIndex tw + 1 = count_tw tw")
  case True
  have "currentIndex (setCurrentIndex 0 tw) = 0"
    using assms by (intro currentIndex_setCurrentIndex) simp_all
  with True show ?thesis by (simp add: next_tab_def Let_def)
next
  case False
  have "currentIndex (setCurrentIndex (currentIndex tw + 1) tw) = currentIndex tw + 1"
    using assms False by (intro currentIndex_setCurrentIndex) simp_all
  with False show ?thesis by (simp add: next_tab_def Let_def)
qed

lemma previous_tab_step:
  assumes "length (entries tw) = length (pages tw)" "0 \<le> currentIndex tw"
    "currentIndex tw < count_tw tw"
  shows "currentIndex (previous_tab tw) =
           (if currentIndex tw = 0 then count_tw tw - 1 else currentIndex tw - 1)"
proof (cases "currentIndex tw = 0")
  case True
  have "currentIndex (setCurrentIndex (count_tw tw - 1) tw) = count_tw tw - 1"
    using assms by (intro currentIndex_setCurrentIndex) simp_all
  with True show ?thesis by (simp add: previous_tab_def Let_def)
next
  case False
  have "currentIndex (setCurrentIndex (currentIndex tw - 1) tw) = currentIndex tw - 1"
    using assms False by (intro currentIndex_setCurrentIndex) simp_all
  with False assms(2) show ?thesis by (simp add: previous_tab_def Let_def)
qed

lemma succ_mod: "0 \<le> (c::int) \<Longrightarrow> c < n \<Longrightarrow> (c + 1) mod n = (if c + 1 = n then 0 else c + 1)"
  by simp

lemma pred_mod:
  "0 \<le> (c::int) \<Longrightarrow> c < n \<Longrightarrow> (c + n - 1) mod n = (if c = 0 then n - 1 else c - 1)"
proof (cases "c = 0")
  case True
  assume "0 \<le> c" "c < n"
  with True show ?thesis by (simp add: zmod_minus1)
next
  case False
  assume a: "0 \<le> c" "c < n"
  have "(c + n - 1) mod n = (c - 1 + n) mod n" by (simp add: algebra_simps)
  also have "\<dots> = (c - 1) mod n" by simp
  also have "\<dots> = c - 1" using False a by simp
  finally show ?thesis using False by simp
qed

lemma next_tab_shape [simp]:
  "entries (next_tab tw) = entries tw" "pages (next_tab tw) = pages tw"
  "count_tw (next_tab tw) = count_tw tw"
  by (simp_all add: next_tab_def Let_def)

lemma previous_tab_shape [simp]:
  "entries (previous_tab tw) = entries tw" "pages (previous_tab tw) = pages tw"
  "count_tw (previous_tab tw) = count_tw tw"
  by (simp_all add: previous_tab_def Let_def)

text \<open>
  C10. In a strip with \<open>n > 0\<close> tabs (bar and stack of the same length) and a valid current
  index \<open>c\<close>, \<open>next_tab\<close> makes \<open>(c + 1) mod n\<close> current and \<open>previous_tab\<close> makes
  \<open>(c + n - 1) mod n\<close> current; either one undoes the other on the current index.
\<close>

theorem next_previous_tab_cycle:
  assumes "length (entries tw) = length (pages tw)" and "0 \<le> currentIndex tw"
    and "currentIndex tw < count_tw tw"
  shows "currentIndex (next_tab tw) = (currentIndex tw + 1) mod count_tw tw \<and>
         currentIndex (previous_tab tw) = (currentIndex tw + count_tw tw - 1) mod count_tw tw \<and>
         currentIndex (previous_tab (next_tab tw)) = currentIndex tw \<and>
         currentIndex (next_tab (previous_tab tw)) = currentIndex tw"
proof -
  let ?c = "currentIndex tw" and ?n = "count_tw tw"
  have N: "currentIndex (next_tab tw) = (if ?c + 1 = ?n then 0 else ?c + 1)"
    by (rule next_tab_step [OF assms])
  have P: "currentIndex (previous_tab tw) = (if ?c = 0 then ?n - 1 else ?c - 1)"
    by (rule previous_tab_step [OF assms])
  have Nr: "0 \<le> currentIndex (next_tab tw)" "currentIndex (next_tab tw) < count_tw (next_tab tw)"
    using assms(2,3) by (simp_all add: N)
  have Pr: "0 \<le> currentIndex (previous_tab tw)"
    "currentIndex (previous_tab tw) < count_tw (previous_tab tw)"
    using assms(2,3) by (simp_all add: P)
  have "currentIndex (previous_tab (next_tab tw)) =
          (if currentIndex (next_tab tw) = 0 then count_tw (next_tab tw) - 1
           else currentIndex (next_tab tw) - 1)"
    using assms(1) Nr by (intro previous_tab_step) simp_all
  then have PN: "currentIndex (previous_tab (next_tab tw)) = ?c"
    using assms(2,3) by (simp add: N split: if_splits)
  have "currentIndex (next_tab (previous_tab tw)) =
          (if currentIndex (previous_tab tw) + 1 = count_tw (previous_tab tw) then 0
           else currentIndex (previous_tab tw) + 1)"
    using assms(1) Pr by (intro next_tab_step) simp_all
  then have NP: "currentIndex (next_tab (previous_tab tw)) = ?c"
    using assms(2,3) by (simp add: P split: if_splits)
  from N P PN NP show ?thesis
    by (simp only: succ_mod [OF assms(2,3)] pred_mod [OF assms(2,3)])
qed

theorem next_previous_tab_cycle_witness:
  "length (entries strip_abc) = length (pages strip_abc) \<and> 0 \<le> currentIndex strip_abc \<and>
   currentIndex strip_abc < count_tw strip_abc \<and>
   currentIndex (next_tab strip_abc) = 1 \<and> currentIndex (previous_tab strip_abc) = 2 \<and>
   currentIndex (previous_tab (next_tab strip_abc)) = currentIndex strip_abc"
proof -
  have h1: "length (entries strip_abc) = length (pages strip_abc)" by code_simp
  have h2: "0 \<le> currentIndex strip_abc" by code_simp
  have h3: "currentIndex strip_abc < count_tw strip_abc" by code_simp
  have c: "currentIndex strip_abc = 0" "count_tw strip_abc = 3" by code_simp+
  show ?thesis
    using h1 h2 h3 next_previous_tab_cycle [OF h1 h2 h3] by (simp add: c)
qed

section \<open>The acceptance flag\<close>

text \<open>
  C4. The acceptance flag is one slot: what \<open>mark_drag_seq_accepted\<close> writes replaces what
  was there, \<open>was_drag_seq_accepted\<close> holds for exactly the number marked last, and marking
  the same number a second time changes nothing.
\<close>

theorem acceptance_flag_single_slot:
  "was_drag_seq_accepted (mark_drag_seq_accepted s w) s' = (s' = s) \<and>
   mark_drag_seq_accepted s2 (mark_drag_seq_accepted s1 w) = mark_drag_seq_accepted s2 w \<and>
   mark_drag_seq_accepted s (mark_drag_seq_accepted s w) = mark_drag_seq_accepted s w \<and>
   was_drag_seq_accepted (mark_drag_seq_accepted s (mark_drag_seq_accepted s w)) s =
     was_drag_seq_accepted (mark_drag_seq_accepted s w) s \<and>
   was_drag_seq_accepted (mark_drag_seq_accepted s w) s"
  by (auto simp add: was_drag_seq_accepted_def mark_drag_seq_accepted_def)

section \<open>Indices outside the strip\<close>

lemma web_view_out_of_range:
  "\<not> (0 \<le> index \<and> index < count_tw tw) \<Longrightarrow> web_view tw index = None"
  by (auto simp add: web_view_def widget_tw_def stack_widget_def count_tw_def)

section \<open>Windows and the window list\<close>

lemma windows_update_window [simp]: "windows (update_window r f br) = windows br"
  by (simp add: update_window_def)

lemma download_manager_update_window [simp]:
  "download_manager (update_window r f br) = download_manager br"
  by (simp add: update_window_def)

lemma length_objects_update_window [simp]:
  "length (objects (update_window r f br)) = length (objects br)"
  by (simp add: update_window_def)

lemma nth_update_window_same:
  "r < length (objects br) \<Longrightarrow> objects (update_window r f br) ! r = f (objects br ! r)"
  by (simp add: update_window_def)

lemma nth_update_window_other:
  "r' \<noteq> r \<Longrightarrow> objects (update_window r f br) ! r' = objects br ! r'"
  by (simp add: update_window_def)

lemma objects_closeEvent [simp]: "objects (closeEvent r br) = objects br"
  by (simp add: closeEvent_def Let_def)

lemma windows_closeEvent [simp]: "windows (closeEvent r br) = remove1 r (windows br)"
  by (simp add: closeEvent_def Let_def)

lemma windows_close_window [simp]: "windows (close_window r br) = remove1 r (windows br)"
  by (simp add: close_window_def)

lemma length_objects_close_window [simp]:
  "length (objects (close_window r br)) = length (objects br)"
  by (simp add: close_window_def)

lemma nth_close_window_same:
  "r < length (objects br) \<Longrightarrow> objects (close_window r br) ! r = (objects br ! r)\<lparr>closed := True\<rparr>"
  by (simp add: close_window_def nth_update_window_same)

lemma nth_close_window_other:
  "r' \<noteq> r \<Longrightarrow> objects (close_window r br) ! r' = objects br ! r'"
  by (simp add: close_window_def nth_update_window_other)

lemma registry_ok_create_hidden_window:
  "registry_ok br \<Longrightarrow> registry_ok (fst (create_hidden_window br))"
  by (auto simp add: registry_ok_def create_hidden_window_def Let_def list_all_iff)

lemma registry_ok_close_window: "registry_ok br \<Longrightarrow> registry_ok (close_window r br)"
  by (auto simp add: registry_ok_def list_all_iff)

lemma registry_ok_fresh: "registry_ok br \<Longrightarrow> length (objects br) \<notin> set (windows br)"
  by (auto simp add: registry_ok_def list_all_iff)

lemma web_view_Some:
  assumes "web_view tw i = Some v"
  shows "0 \<le> i" "i < count_tw tw" "pages tw ! nat i = v"
  using assms
  by (auto simp add: web_view_def widget_tw_def stack_widget_def count_tw_def
        split: if_splits option.splits widget.splits)

lemma web_view_is_WebView: "web_view tw i = Some v \<Longrightarrow> \<exists>n ic. v = WebView n ic"
  by (cases v) (auto simp add: web_view_def split: option.splits widget.splits)

lemma web_view_at:
  "0 \<le> i \<Longrightarrow> i < count_tw tw \<Longrightarrow> pages tw ! nat i = WebView n ic \<Longrightarrow>
     web_view tw i = Some (WebView n ic)"
  by (simp add: web_view_def widget_tw_def stack_widget_def count_tw_def)

lemma count_removeTab:
  "0 \<le> i \<Longrightarrow> i < count_tw tw \<Longrightarrow> count_tw (removeTab i tw) = count_tw tw - 1"
  by (simp add: count_tw_def stack_count_def pages_removeTab stack_widget_def length_remove1)

lemma insert_pos_clamped: "0 \<le> k \<Longrightarrow> k \<le> int n \<Longrightarrow> insert_pos k n = nat k"
  by (auto simp add: insert_pos_def)

lemma insertTab_clamped:
  assumes "length (entries tw) = length (pages tw)" "0 \<le> k" "k \<le> count_tw tw"
  shows "pages (fst (insertTab k w title ic tw)) = insert_at (nat k) w (pages tw)"
    and "entries (fst (insertTab k w title ic tw)) =
           insert_at (nat k) \<lparr>tab_text = title, tab_icon = ic, tab_owner = w\<rparr> (entries tw)"
    and "count_tw (fst (insertTab k w title ic tw)) = count_tw tw + 1"
proof -
  have k: "k \<le> int (length (pages tw))"
    using assms(3) by (simp add: count_tw_def stack_count_def)
  show "pages (fst (insertTab k w title ic tw)) = insert_at (nat k) w (pages tw)"
    by (simp add: pages_insertTab insert_pos_clamped [OF assms(2) k])
  show "entries (fst (insertTab k w title ic tw)) =
           insert_at (nat k) \<lparr>tab_text = title, tab_icon = ic, tab_owner = w\<rparr> (entries tw)"
    by (simp add: entries_insertTab assms(1) insert_pos_clamped [OF assms(2) k])
  show "count_tw (fst (insertTab k w title ic tw)) = count_tw tw + 1"
    by (simp add: count_tw_def stack_count_def pages_insertTab length_insert_at)
qed

lemma insert_then_select:
  assumes "length (entries tw) = length (pages tw)" "0 \<le> k" "k \<le> count_tw tw"
  shows "currentIndex (setCurrentIndex k (fst (insertTab k w title ic tw))) = k"
proof (rule currentIndex_setCurrentIndex)
  show "length (entries (fst (insertTab k w title ic tw))) =
        length (pages (fst (insertTab k w title ic tw)))"
    by (simp add: insertTab_clamped [OF assms] length_insert_at assms(1))
  show "0 \<le> k" by (rule assms(2))
  show "k < count_tw (fst (insertTab k w title ic tw))"
    using assms(3) by (simp add: insertTab_clamped(3) [OF assms])
qed

section \<open>Moving a tab into another window\<close>

lemma receive_tab_from_effect:
  assumes "src_window < length (objects br)" "self < length (objects br)" "src_window \<noteq> self"
    "web_view (tab_widget (objects br ! src_window)) src_index = Some view"
  shows "tab_widget (objects (receive_tab_from src_window src_index dst_index self br) ! src_window) =
           removeTab src_index (tab_widget (objects br ! src_window))"
    and "tab_widget (objects (receive_tab_from src_window src_index dst_index self br) ! self) =
           setCurrentIndex (max 0 (min dst_index (count_tw (tab_widget (objects br ! self)))))
             (fst (insertTab (max 0 (min dst_index (count_tw (tab_widget (objects br ! self)))))
                     view (tabText (tab_widget (objects br ! src_window)) src_index)
                     (fav_icon view) (tab_widget (objects br ! self))))"
    and "windows (receive_tab_from src_window src_index dst_index self br) =
           (if count_tw (removeTab src_index (tab_widget (objects br ! src_window))) = 0
            then remove1 src_window (windows br) else windows br)"
    and "closed (objects (receive_tab_from src_window src_index dst_index self br) ! src_window) =
           (count_tw (removeTab src_index (tab_widget (objects br ! src_window))) = 0 \<or>
            closed (objects br ! src_window))"
    and "length (objects (receive_tab_from src_window src_index dst_index self br)) =
           length (objects br)"
  using assms
  by (simp_all add: receive_tab_from_def Let_def nth_update_window_same nth_update_window_other
        nth_close_window_same nth_close_window_other)

text \<open>
  C1. \<open>receive_tab_from\<close> between two different windows, with a source index that names a
  web view of the source strip and any requested destination index: the source strip
  loses one tab and the destination gains one, so the sum of the two counts is unchanged;
  the insertion position is the requested index clamped to \<open>[0, count]\<close> of the destination
  at that moment; the view sits at that position of the destination afterwards and is its
  current tab. The destination's tab bar and stack have the same length beforehand.
\<close>

theorem cross_window_merge:
  assumes "src_window < length (objects br)" and "self < length (objects br)"
    and "src_window \<noteq> self"
    and "web_view (tab_widget (objects br ! src_window)) src_index = Some view"
    and "length (entries (tab_widget (objects br ! self))) =
           length (pages (tab_widget (objects br ! self)))"
  shows "let br' = receive_tab_from src_window src_index dst_index self br;
             S = tab_widget (objects br ! src_window);
             D = tab_widget (objects br ! self);
             S' = tab_widget (objects br' ! src_window);
             D' = tab_widget (objects br' ! self);
             k = max 0 (min dst_index (count_tw D))
         in count_tw S' + count_tw D' = count_tw S + count_tw D \<and>
            count_tw S' = count_tw S - 1 \<and> count_tw D' = count_tw D + 1 \<and>
            0 \<le> k \<and> k \<le> count_tw D \<and>
            pages D' = insert_at (nat k) view (pages D) \<and>
            pages D' ! nat k = view \<and>
            currentIndex D' = k \<and>
            current_web_view D' = Some view"
proof -
  let ?br' = "receive_tab_from src_window src_index dst_index self br"
  let ?S = "tab_widget (objects br ! src_window)"
  let ?D = "tab_widget (objects br ! self)"
  let ?S' = "tab_widget (objects ?br' ! src_window)"
  let ?D' = "tab_widget (objects ?br' ! self)"
  let ?k = "max 0 (min dst_index (count_tw ?D))"
  let ?txt = "tabText ?S src_index"
  note eff = receive_tab_from_effect [OF assms(1-4), of dst_index]
  note sv = web_view_Some [OF assms(4)]
  have k0: "0 \<le> ?k" by simp
  have kn: "?k \<le> count_tw ?D" by (simp add: count_tw_def stack_count_def)
  note ins = insertTab_clamped [OF assms(5) k0 kn, of view ?txt "fav_icon view"]
  have cS: "count_tw ?S' = count_tw ?S - 1"
    by (simp only: eff(1) count_removeTab [OF sv(1,2)])
  have cD: "count_tw ?D' = count_tw ?D + 1"
    by (simp only: eff(2) count_tw_setCurrentIndex ins(3))
  have pD: "pages ?D' = insert_at (nat ?k) view (pages ?D)"
    by (simp only: eff(2) pages_setCurrentIndex ins(1))
  have kl: "nat ?k \<le> length (pages ?D)"
    using kn by (simp add: count_tw_def stack_count_def)
  have at: "pages ?D' ! nat ?k = view"
    by (simp only: pD nth_insert_at [OF kl])
  have cur: "currentIndex ?D' = ?k"
    by (simp only: eff(2) insert_then_select [OF assms(5) k0 kn])
  obtain n ic where v: "view = WebView n ic"
    using web_view_is_WebView [OF assms(4)] by blast
  have kc: "?k < count_tw ?D'" using kn by (simp only: cD)
  have "web_view ?D' ?k = Some (WebView n ic)"
    using at by (intro web_view_at [OF k0 kc]) (simp only: v)
  then have cw: "current_web_view ?D' = Some view"
    by (simp only: current_web_view_def cur v)
  from cS cD k0 kn pD at cur cw show ?thesis
    by (simp only: Let_def) simp
qed

theorem cross_window_merge_witness:
  "(0::nat) < length (objects two_windows) \<and> (1::nat) < length (objects two_windows) \<and>
   (0::nat) \<noteq> 1 \<and>
   web_view (tab_widget (objects two_windows ! 0)) 1 = Some view_b \<and>
   length (entries (tab_widget (objects two_windows ! 1))) =
     length (pages (tab_widget (objects two_windows ! 1))) \<and>
   pages (tab_widget (objects (receive_tab_from 0 1 5 1 two_windows) ! 0)) = [view_a, view_c] \<and>
   pages (tab_widget (objects (receive_tab_from 0 1 5 1 two_windows) ! 1)) = [view_d, view_b] \<and>
   count_tw (tab_widget (objects (receive_tab_from 0 1 5 1 two_windows) ! 0)) +
     count_tw (tab_widget (objects (receive_tab_from 0 1 5 1 two_windows) ! 1)) =
     count_tw (tab_widget (objects two_windows ! 0)) +
     count_tw (tab_widget (objects two_windows ! 1)) \<and>
   currentIndex (tab_widget (objects (receive_tab_from 0 1 5 1 two_windows) ! 1)) = 1 \<and>
   current_web_view (tab_widget (objects (receive_tab_from 0 1 5 1 two_windows) ! 1)) = Some view_b"
proof -
  have h1: "(0::nat) < length (objects two_windows)" by code_simp
  have h2: "(1::nat) < length (objects two_windows)" by code_simp
  have h3: "(0::nat) \<noteq> 1" by simp
  have h4: "web_view (tab_widget (objects two_windows ! 0)) 1 = Some view_b" by code_simp
  have h5: "length (entries (tab_widget (objects two_windows ! 1))) =
              length (pages (tab_widget (objects two_windows ! 1)))" by code_simp
  have r0: "pages (tab_widget (objects (receive_tab_from 0 1 5 1 two_windows) ! 0)) =
              [view_a, view_c]" by code_simp
  have r1: "pages (tab_widget (objects (receive_tab_from 0 1 5 1 two_windows) ! 1)) =
              [view_d, view_b]" by code_simp
  have k: "max 0 (min 5 (count_tw (tab_widget (objects two_windows ! 1)))) = 1" by code_simp
  have t: "count_tw (tab_widget (objects (receive_tab_from 0 1 5 1 two_windows) ! 0)) +
             count_tw (tab_widget (objects (receive_tab_from 0 1 5 1 two_windows) ! 1)) =
             count_tw (tab_widget (objects two_windows ! 0)) +
             count_tw (tab_widget (objects two_windows ! 1)) \<and>
           currentIndex (tab_widget (objects (receive_tab_from 0 1 5 1 two_windows) ! 1)) = 1 \<and>
           current_web_view (tab_widget (objects (receive_tab_from 0 1 5 1 two_windows) ! 1)) =
             Some view_b"
    using cross_window_merge [OF h1 h2 h3 h4 h5, of 5, unfolded Let_def k] by blast
  from h1 h2 h3 h4 h5 r0 r1 t show ?thesis by blast
qed

text \<open>
  C5. When \<open>receive_tab_from\<close> takes the only tab of a different window, whose list of
  windows holds each window once, that source window is left with no tab, \<open>close\<close> runs on
  it, and it is gone from the window list.
\<close>

theorem emptied_source_window_is_closed:
  assumes "src_window < length (objects br)" and "self < length (objects br)"
    and "src_window \<noteq> self"
    and "web_view (tab_widget (objects br ! src_window)) src_index = Some view"
    and "count_tw (tab_widget (objects br ! src_window)) = 1"
    and "distinct (windows br)"
  shows "let br' = receive_tab_from src_window src_index dst_index self br
         in count_tw (tab_widget (objects br' ! src_window)) = 0 \<and>
            closed (objects br' ! src_window) \<and>
            windows br' = remove1 src_window (windows br) \<and>
            src_window \<notin> set (windows br')"
proof -
  note eff = receive_tab_from_effect [OF assms(1-4), of dst_index]
  note sv = web_view_Some [OF assms(4)]
  have c: "count_tw (removeTab src_index (tab_widget (objects br ! src_window))) = 0"
    by (simp add: count_removeTab [OF sv(1,2)] assms(5))
  have "src_window \<notin> set (remove1 src_window (windows br))"
    using assms(6) by simp
  then show ?thesis
    by (simp add: Let_def eff c)
qed

theorem emptied_source_window_is_closed_witness:
  "(1::nat) < length (objects two_windows) \<and> (0::nat) < length (objects two_windows) \<and>
   (1::nat) \<noteq> 0 \<and>
   web_view (tab_widget (objects two_windows ! 1)) 0 = Some view_d \<and>
   count_tw (tab_widget (objects two_windows ! 1)) = 1 \<and>
   distinct (windows two_windows) \<and>
   closed (objects (receive_tab_from 1 0 0 0 two_windows) ! 1) \<and>
   1 \<notin> set (windows (receive_tab_from 1 0 0 0 two_windows)) \<and>
   windows (receive_tab_from 1 0 0 0 two_windows) = [0] \<and>
   pages (tab_widget (objects (receive_tab_from 1 0 0 0 two_windows) ! 0)) =
     [view_d, view_a, view_b, view_c]"
proof -
  have h1: "(1::nat) < length (objects two_windows)" by code_simp
  have h2: "(0::nat) < length (objects two_windows)" by code_simp
  have h3: "(1::nat) \<noteq> 0" by simp
  have h4: "web_view (tab_widget (objects two_windows ! 1)) 0 = Some view_d" by code_simp
  have h5: "count_tw (tab_widget (objects two_windows ! 1)) = 1" by code_simp
  have h6: "distinct (windows two_windows)" by code_simp
  have w: "windows (receive_tab_from 1 0 0 0 two_windows) = [0]" by code_simp
  have r: "pages (tab_widget (objects (receive_tab_from 1 0 0 0 two_windows) ! 0)) =
             [view_d, view_a, view_b, view_c]" by code_simp
  have t: "closed (objects (receive_tab_from 1 0 0 0 two_windows) ! 1) \<and>
           1 \<notin> set (windows (receive_tab_from 1 0 0 0 two_windows))"
    using emptied_source_window_is_closed [OF h1 h2 h3 h4 h5 h6, of 0, unfolded Let_def]
    by blast
  from h1 h2 h3 h4 h5 h6 w r t show ?thesis by blast
qed

section \<open>Ending a drag that nobody accepted\<close>

lemma detach_single_tab:
  "count_tw (tab_widget (objects br ! self)) = 1 \<Longrightarrow>
     detach_tab_to_new_window from_index global_pos self br =
       Inr (update_window self (\<lambda>w. w\<lparr>position := point_minus global_pos detach_offset\<rparr>) br)"
  by (simp add: detach_tab_to_new_window_def Let_def)

lemma detach_stale_index_raises:
  "count_tw (tab_widget (objects br ! self)) \<noteq> 1 \<Longrightarrow>
   web_view (tab_widget (objects br ! self)) from_index = None \<Longrightarrow>
     detach_tab_to_new_window from_index global_pos self br = Inl AttributeError"
  by (simp add: detach_tab_to_new_window_def Let_def)

lemma addTab_to_empty:
  "pages (fst (addTab w title ic empty_TabWidget)) = [w]"
  "entries (fst (addTab w title ic empty_TabWidget)) =
     [\<lparr>tab_text = title, tab_icon = ic, tab_owner = w\<rparr>]"
proof -
  have l: "length (entries empty_TabWidget) = length (pages empty_TabWidget)"
    by (simp add: empty_TabWidget_def)
  show "pages (fst (addTab w title ic empty_TabWidget)) = [w]"
    by (simp add: pages_addTab [OF l]) (simp add: empty_TabWidget_def)
  show "entries (fst (addTab w title ic empty_TabWidget)) =
     [\<lparr>tab_text = title, tab_icon = ic, tab_owner = w\<rparr>]"
    by (simp add: entries_addTab) (simp add: empty_TabWidget_def)
qed

lemma detach_many_tabs:
  assumes "self < length (objects br)"
    "count_tw (tab_widget (objects br ! self)) \<noteq> 1"
    "web_view (tab_widget (objects br ! self)) from_index = Some view"
  shows "\<exists>br'. detach_tab_to_new_window from_index global_pos self br = Inr br' \<and>
           tab_widget (objects br' ! self) = removeTab from_index (tab_widget (objects br ! self)) \<and>
           length (objects br') = Suc (length (objects br)) \<and>
           windows br' = windows br @ [length (objects br)] \<and>
           tab_widget (objects br' ! length (objects br)) =
             fst (addTab view (tabText (tab_widget (objects br ! self)) from_index)
                    (fav_icon view) empty_TabWidget) \<and>
           position (objects br' ! length (objects br)) = point_minus global_pos detach_offset \<and>
           (\<forall>r. r \<noteq> self \<and> r < length (objects br) \<longrightarrow> objects br' ! r = objects br ! r)"
  using assms
  by (simp add: detach_tab_to_new_window_def Let_def create_hidden_window_def
        update_window_def nth_append new_BrowserWindow_def)

text \<open>
  C2. A drag ends and the originating window's acceptance flag is not the drag's sequence
  number. If that window has exactly one tab, the window is moved to the release point
  minus the fixed offset, its tab widget is untouched, and no window is created. If it has
  two or more tabs and the source index names a web view (bar and stack of equal length,
  pages distinct), that tab is taken out of the strip, the others keeping their order, and
  a window that was not in the window list before is appended to it, holding exactly that
  one tab and placed at the release point minus the fixed offset.
\<close>

theorem unaccepted_drag_detaches:
  assumes "self < length (objects br)" and "registry_ok br"
    and "\<not> was_drag_seq_accepted (objects br ! self) s"
  shows "(count_tw (tab_widget (objects br ! self)) = 1 \<longrightarrow>
            (\<exists>br'. finish_drag self s from_index global_pos br = Inr br' \<and>
               tab_widget (objects br' ! self) = tab_widget (objects br ! self) \<and>
               position (objects br' ! self) = point_minus global_pos detach_offset \<and>
               windows br' = windows br \<and>
               length (objects br') = length (objects br))) \<and>
         (2 \<le> count_tw (tab_widget (objects br ! self)) \<and>
          web_view (tab_widget (objects br ! self)) from_index = Some view \<and>
          length (entries (tab_widget (objects br ! self))) =
            length (pages (tab_widget (objects br ! self))) \<and>
          distinct (pages (tab_widget (objects br ! self))) \<longrightarrow>
            (\<exists>br'. finish_drag self s from_index global_pos br = Inr br' \<and>
               pages (tab_widget (objects br' ! self)) =
                 delete_at (nat from_index) (pages (tab_widget (objects br ! self))) \<and>
               entries (tab_widget (objects br' ! self)) =
                 delete_at (nat from_index) (entries (tab_widget (objects br ! self))) \<and>
               length (objects br') = Suc (length (objects br)) \<and>
               length (objects br) \<notin> set (windows br) \<and>
               windows br' = windows br @ [length (objects br)] \<and>
               pages (tab_widget (objects br' ! length (objects br))) = [view] \<and>
               entries (tab_widget (objects br' ! length (objects br))) =
                 [\<lparr>tab_text = tabText (tab_widget (objects br ! self)) from_index,
                   tab_icon = fav_icon view, tab_owner = view\<rparr>] \<and>
               position (objects br' ! length (objects br)) =
                 point_minus global_pos detach_offset))"
proof (intro conjI impI)
  let ?T = "tab_widget (objects br ! self)"
  assume one: "count_tw ?T = 1"
  show "\<exists>br'. finish_drag self s from_index global_pos br = Inr br' \<and>
               tab_widget (objects br' ! self) = ?T \<and>
               position (objects br' ! self) = point_minus global_pos detach_offset \<and>
               windows br' = windows br \<and>
               length (objects br') = length (objects br)"
    using assms(1,3)
    by (simp add: finish_drag_def detach_single_tab [OF one] nth_update_window_same)
next
  let ?T = "tab_widget (objects br ! self)"
  assume many: "2 \<le> count_tw ?T \<and> web_view ?T from_index = Some view \<and>
                length (entries ?T) = length (pages ?T) \<and> distinct (pages ?T)"
  then have ne: "count_tw ?T \<noteq> 1" and wv: "web_view ?T from_index = Some view"
    and l: "length (entries ?T) = length (pages ?T)" and d: "distinct (pages ?T)"
    by simp_all
  note sv = web_view_Some [OF wv]
  have fe: "0 \<le> from_index \<and> from_index < int (length (entries ?T))"
    using sv(1,2) by (simp add: count_tw_def stack_count_def l)
  from detach_many_tabs [OF assms(1) ne wv, of global_pos]
  obtain br' where
    r: "detach_tab_to_new_window from_index global_pos self br = Inr br'"
    and t: "tab_widget (objects br' ! self) = removeTab from_index ?T"
    and n: "length (objects br') = Suc (length (objects br))"
    and w: "windows br' = windows br @ [length (objects br)]"
    and c: "tab_widget (objects br' ! length (objects br)) =
              fst (addTab view (tabText ?T from_index) (fav_icon view) empty_TabWidget)"
    and p: "position (objects br' ! length (objects br)) = point_minus global_pos detach_offset"
    by blast
  have f: "finish_drag self s from_index global_pos br = Inr br'"
    using assms(3) r by (simp add: finish_drag_def)
  have 1: "pages (tab_widget (objects br' ! self)) = delete_at (nat from_index) (pages ?T)"
    by (simp only: t pages_removeTab_distinct [OF d sv(1,2)])
  have 2: "entries (tab_widget (objects br' ! self)) = delete_at (nat from_index) (entries ?T)"
    using fe by (simp only: t entries_removeTab) simp
  have 3: "length (objects br) \<notin> set (windows br)"
    by (rule registry_ok_fresh [OF assms(2)])
  have 4: "pages (tab_widget (objects br' ! length (objects br))) = [view]"
    by (simp only: c addTab_to_empty)
  have 5: "entries (tab_widget (objects br' ! length (objects br))) =
             [\<lparr>tab_text = tabText ?T from_index, tab_icon = fav_icon view, tab_owner = view\<rparr>]"
    by (simp only: c addTab_to_empty)
  from f 1 2 n 3 w 4 5 p
  show "\<exists>br'. finish_drag self s from_index global_pos br = Inr br' \<and>
               pages (tab_widget (objects br' ! self)) = delete_at (nat from_index) (pages ?T) \<and>
               entries (tab_widget (objects br' ! self)) =
                 delete_at (nat from_index) (entries ?T) \<and>
               length (objects br') = Suc (length (objects br)) \<and>
               length (objects br) \<notin> set (windows br) \<and>
               windows br' = windows br @ [length (objects br)] \<and>
               pages (tab_widget (objects br' ! length (objects br))) = [view] \<and>
               entries (tab_widget (objects br' ! length (objects br))) =
                 [\<lparr>tab_text = tabText ?T from_index, tab_icon = fav_icon view,
                   tab_owner = view\<rparr>] \<and>
               position (objects br' ! length (objects br)) =
                 point_minus global_pos detach_offset"
    by blast
qed

theorem unaccepted_drag_detaches_witness:
  "(0::nat) < length (objects two_windows) \<and> (1::nat) < length (objects two_windows) \<and>
   registry_ok two_windows \<and>
   \<not> was_drag_seq_accepted (objects two_windows ! 0) 1 \<and>
   \<not> was_drag_seq_accepted (objects two_windows ! 1) 1 \<and>
   count_tw (tab_widget (objects two_windows ! 1)) = 1 \<and>
   (2 \<le> count_tw (tab_widget (objects two_windows ! 0)) \<and>
    web_view (tab_widget (objects two_windows ! 0)) 1 = Some view_b \<and>
    length (entries (tab_widget (objects two_windows ! 0))) =
      length (pages (tab_widget (objects two_windows ! 0))) \<and>
    distinct (pages (tab_widget (objects two_windows ! 0)))) \<and>
   (\<exists>br'. finish_drag 1 1 0 (100, 50) two_windows = Inr br' \<and>
      tab_widget (objects br' ! 1) = strip_d \<and>
      position (objects br' ! 1) = (40, 30) \<and>
      windows br' = [0, 1] \<and> length (objects br') = 2) \<and>
   (\<exists>br'. finish_drag 0 1 1 (100, 50) two_windows = Inr br' \<and>
      pages (tab_widget (objects br' ! 0)) = [view_a, view_c] \<and>
      length (objects br') = 3 \<and>
      windows br' = [0, 1, 2] \<and>
      pages (tab_widget (objects br' ! 2)) = [view_b] \<and>
      position (objects br' ! 2) = (40, 30))"
proof -
  have h0: "(0::nat) < length (objects two_windows)" by code_simp
  have h1: "(1::nat) < length (objects two_windows)" by code_simp
  have hr: "registry_ok two_windows" by code_simp
  have a0: "\<not> was_drag_seq_accepted (objects two_windows ! 0) 1" by code_simp
  have a1: "\<not> was_drag_seq_accepted (objects two_windows ! 1) 1" by code_simp
  have c1: "count_tw (tab_widget (objects two_windows ! 1)) = 1" by code_simp
  have m: "2 \<le> count_tw (tab_widget (objects two_windows ! 0)) \<and>
    web_view (tab_widget (objects two_windows ! 0)) 1 = Some view_b \<and>
    length (entries (tab_widget (objects two_windows ! 0))) =
      length (pages (tab_widget (objects two_windows ! 0))) \<and>
    distinct (pages (tab_widget (objects two_windows ! 0)))" by code_simp
  have e1: "tab_widget (objects two_windows ! 1) = strip_d" by code_simp
  have pm: "point_minus (100, 50) detach_offset = (40, 30)" by code_simp
  have ws: "windows two_windows = [0, 1]" by code_simp
  have l2: "length (objects two_windows) = 2" by code_simp
  have da: "delete_at (nat 1) (pages (tab_widget (objects two_windows ! 0))) = [view_a, view_c]"
    by code_simp
  have s1: "\<exists>br'. finish_drag 1 1 0 (100, 50) two_windows = Inr br' \<and>
      tab_widget (objects br' ! 1) = strip_d \<and>
      position (objects br' ! 1) = (40, 30) \<and>
      windows br' = [0, 1] \<and> length (objects br') = 2"
    using unaccepted_drag_detaches [OF h1 hr a1, of 0 "(100, 50)", THEN conjunct1, THEN mp,
        OF c1, unfolded e1 pm ws l2]
    by blast
  have s2: "\<exists>br'. finish_drag 0 1 1 (100, 50) two_windows = Inr br' \<and>
      pages (tab_widget (objects br' ! 0)) = [view_a, view_c] \<and>
      length (objects br') = 3 \<and>
      windows br' = [0, 1, 2] \<and>
      pages (tab_widget (objects br' ! 2)) = [view_b] \<and>
      position (objects br' ! 2) = (40, 30)"
    using unaccepted_drag_detaches [OF h0 hr a0, of 1 "(100, 50)" view_b, THEN conjunct2,
        THEN mp, OF m, unfolded da pm ws l2]
    by auto
  from h0 h1 hr a0 a1 c1 m s1 s2 show ?thesis by blast
qed

section \<open>Dropping on a tab bar\<close>

lemma start_drag_effect:
  assumes "w < length (objects br)" "start_drag w i br = (br1, p)"
  shows "payload_src_window_index p = window_index br1 w"
    and "payload_src_index p = i"
    and "payload_seq p = drag_seq_counter (objects br ! w) + 1"
    and "tab_widget (objects br1 ! w) = tab_widget (objects br ! w)"
    and "drag_seq_accepted (objects br1 ! w) = drag_seq_accepted (objects br ! w)"
    and "drag_seq_counter (objects br1 ! w) = drag_seq_counter (objects br ! w) + 1"
    and "windows br1 = windows br"
    and "length (objects br1) = length (objects br)"
  using assms
  by (auto simp add: start_drag_def new_drag_seq_def Let_def nth_update_window_same
        window_index_def)

lemma fresh_seq_not_accepted:
  assumes "w < length (objects br)" "start_drag w i br = (br1, p)"
    "drag_seq_accepted (objects br ! w) \<le> drag_seq_counter (objects br ! w)"
  shows "\<not> was_drag_seq_accepted (objects br1 ! w) (payload_seq p)"
  using assms(3)
  by (simp add: was_drag_seq_accepted_def start_drag_effect(3,5) [OF assms(1,2)])





lemma unregistered_window_gets_minus_one:
  assumes "w \<notin> set (windows br)"
  shows "payload_src_window_index (snd (start_drag w i br)) = -1"
proof -
  have "find_index w (windows br) = None"
    using assms by (simp add: find_index_None)
  then show ?thesis
    by (simp add: start_drag_def new_drag_seq_def Let_def window_index_def)
qed

lemma drop_unresolvable_index_ignored:
  assumes "has_format ev"
    "payload_src_window_index (drop_payload ev) \<noteq> window_index br dest_window"
    "int (length (windows br)) \<le> payload_src_window_index (drop_payload ev) \<or>
     payload_src_window_index (drop_payload ev) < - int (length (windows br))"
  shows "dropEvent ev dest_window br = (br, Ignored)"
  using assms by (auto simp add: dropEvent_def Let_def py_getitem_def)

text \<open>
  C7, at the index \<open>-1\<close>. Two windows are registered. A drop on window 0 carries a payload
  whose source window index is \<open>-1\<close>, which is outside \<open>[0, 2)\<close>. Python's
  \<open>windows()[-1]\<close> is the last window, so the drop is accepted, tab 0 of window 1 is moved
  into window 0, and window 1, left empty, is closed and removed from the window list.
  \<open>Browser.lookup_window\<close> resolves \<open>-1\<close> to the last window in the same way.
\<close>

theorem drop_with_index_minus_one_takes_from_last_window:
  "payload_src_window_index stale_payload = -1 \<and>
   \<not> (0 \<le> payload_src_window_index stale_payload \<and>
      payload_src_window_index stale_payload < int (length (windows two_windows))) \<and>
   snd (dropEvent (drop_on stale_payload (-1) False) 0 two_windows) = Accepted \<and>
   pages (tab_widget (objects two_windows ! 0)) = [view_a, view_b, view_c] \<and>
   pages (tab_widget (objects (fst (dropEvent (drop_on stale_payload (-1) False) 0 two_windows)) ! 0)) =
     [view_a, view_b, view_c, view_d] \<and>
   pages (tab_widget (objects two_windows ! 1)) = [view_d] \<and>
   pages (tab_widget (objects (fst (dropEvent (drop_on stale_payload (-1) False) 0 two_windows)) ! 1)) = [] \<and>
   windows (fst (dropEvent (drop_on stale_payload (-1) False) 0 two_windows)) = [0] \<and>
   fst (dropEvent (drop_on stale_payload (-1) False) 0 two_windows) \<noteq> two_windows \<and>
   lookup_window two_windows (-1) = Some 1"
proof -
  have 1: "payload_src_window_index stale_payload = -1" by code_simp
  have 2: "\<not> (0 \<le> payload_src_window_index stale_payload \<and>
      payload_src_window_index stale_payload < int (length (windows two_windows)))" by code_simp
  have 3: "snd (dropEvent (drop_on stale_payload (-1) False) 0 two_windows) = Accepted"
    by code_simp
  have 4: "pages (tab_widget (objects two_windows ! 0)) = [view_a, view_b, view_c]" by code_simp
  have 5: "pages (tab_widget (objects (fst (dropEvent (drop_on stale_payload (-1) False) 0
             two_windows)) ! 0)) = [view_a, view_b, view_c, view_d]" by code_simp
  have 6: "pages (tab_widget (objects two_windows ! 1)) = [view_d]" by code_simp
  have 7: "pages (tab_widget (objects (fst (dropEvent (drop_on stale_payload (-1) False) 0
             two_windows)) ! 1)) = []" by code_simp
  have 8: "windows (fst (dropEvent (drop_on stale_payload (-1) False) 0 two_windows)) = [0]"
    by code_simp
  have w: "windows two_windows = [0, 1]" by code_simp
  have 9: "fst (dropEvent (drop_on stale_payload (-1) False) 0 two_windows) \<noteq> two_windows"
    using 8 w by auto
  have 10: "lookup_window two_windows (-1) = Some 1" by code_simp
  from 1 2 3 4 5 6 7 8 9 10 show ?thesis by blast
qed

section \<open>Stale tab indices at the three entry points\<close>

lemma moveTab_stale_index_keeps_strip:
  "\<not> (0 \<le> from_index \<and> from_index < count_tw tw) \<Longrightarrow> moveTab from_index to_index tw = tw"
  by (auto simp add: moveTab_def)

lemma receive_tab_from_call_guarded:
  "c_int src_index \<Longrightarrow> web_view (tab_widget (objects br ! src_window)) src_index = None \<Longrightarrow>
     receive_tab_from_call src_window src_index dst_index self br = Inr br"
  by (simp add: receive_tab_from_call_def receive_tab_from_def)

lemma receive_tab_from_call_overflow:
  "\<not> c_int src_index \<Longrightarrow>
     receive_tab_from_call src_window src_index dst_index self br = Inl OverflowError"
  by (simp add: receive_tab_from_call_def)

lemma detach_raises_before_any_change:
  "finish_drag src_win s i global_pos br = Inl e \<Longrightarrow> after_drag src_win s i global_pos br = br"
  by (simp add: after_drag_def)

text \<open>
  C9, at a stale index of \<open>detach_tab_to_new_window\<close>. Window 0 has three tabs and index 3
  names none of them, as after a drag of the last of four tabs during which that tab was
  closed. The drag ends unaccepted: \<open>web_view\<close> returns \<open>None\<close> and \<open>view.hasFocus()\<close>
  raises AttributeError. The exception is dropped by the signal machinery, so the state is
  unchanged, but an error was raised. On the same index \<open>receive_tab_from\<close> and
  \<open>moveTab\<close> return the state unchanged, and a same-window drop with that index still
  writes the acceptance flag. A source index that no C int holds makes
  \<open>receive_tab_from\<close> raise OverflowError.
\<close>

theorem stale_index_detach_raises:
  "count_tw (tab_widget (objects two_windows ! 0)) = 3 \<and>
   web_view (tab_widget (objects two_windows ! 0)) 3 = None \<and>
   \<not> was_drag_seq_accepted (objects two_windows ! 0) 1 \<and>
   detach_tab_to_new_window 3 (100, 50) 0 two_windows = Inl AttributeError \<and>
   finish_drag 0 1 3 (100, 50) two_windows = Inl AttributeError \<and>
   after_drag 0 1 3 (100, 50) two_windows = two_windows \<and>
   receive_tab_from 0 3 0 1 two_windows = two_windows \<and>
   receive_tab_from_call 0 3 0 1 two_windows = Inr two_windows \<and>
   moveTab 3 0 strip_abc = strip_abc \<and>
   pages (tab_widget (objects (fst (dropEvent (drop_on stale_tab_payload (-1) False) 0 two_windows)) ! 0)) =
     [view_a, view_b, view_c] \<and>
   drag_seq_accepted (objects two_windows ! 0) = -1 \<and>
   drag_seq_accepted (objects (fst (dropEvent (drop_on stale_tab_payload (-1) False) 0 two_windows)) ! 0) = 1 \<and>
   \<not> c_int 2147483648 \<and>
   receive_tab_from_call 0 2147483648 0 1 two_windows = Inl OverflowError"
proof -
  have 1: "count_tw (tab_widget (objects two_windows ! 0)) = 3" by code_simp
  have 2: "web_view (tab_widget (objects two_windows ! 0)) 3 = None" by code_simp
  have 3: "\<not> was_drag_seq_accepted (objects two_windows ! 0) 1" by code_simp
  have ne: "count_tw (tab_widget (objects two_windows ! 0)) \<noteq> 1" by (simp only: 1)
  have 4: "detach_tab_to_new_window 3 (100, 50) 0 two_windows = Inl AttributeError"
    by (rule detach_stale_index_raises [OF ne 2])
  have 5: "finish_drag 0 1 3 (100, 50) two_windows = Inl AttributeError"
    using 3 4 by (simp add: finish_drag_def)
  have 6: "after_drag 0 1 3 (100, 50) two_windows = two_windows"
    by (rule detach_raises_before_any_change [OF 5])
  have 7: "receive_tab_from 0 3 0 1 two_windows = two_windows"
    using 2 by (simp add: receive_tab_from_def)
  have c3: "c_int 3" by (simp add: c_int_def)
  have 8: "receive_tab_from_call 0 3 0 1 two_windows = Inr two_windows"
    by (rule receive_tab_from_call_guarded [OF c3 2])
  have r3: "\<not> (0 \<le> (3::int) \<and> 3 < count_tw strip_abc)" by code_simp
  have 9: "moveTab 3 0 strip_abc = strip_abc"
    by (rule moveTab_stale_index_keeps_strip [OF r3])
  have 10: "pages (tab_widget (objects (fst (dropEvent (drop_on stale_tab_payload (-1) False) 0
              two_windows)) ! 0)) = [view_a, view_b, view_c]" by code_simp
  have 11: "drag_seq_accepted (objects two_windows ! 0) = -1" by code_simp
  have 12: "drag_seq_accepted (objects (fst (dropEvent (drop_on stale_tab_payload (-1) False) 0
              two_windows)) ! 0) = 1" by code_simp
  have 13: "\<not> c_int 2147483648" by (simp add: c_int_def)
  have 14: "receive_tab_from_call 0 2147483648 0 1 two_windows = Inl OverflowError"
    by (rule receive_tab_from_call_overflow [OF 13])
  from 1 2 3 4 5 6 7 8 9 10 11 12 13 14 show ?thesis by blast
qed

end
